theory Spec2Isabelle
  imports Main "HOL-Library.Word" "HOL-Library.Multiset"
begin

section \<open>Shared vocabulary: field values, errors and the accumulator\<close>

text \<open>
  Both plugins talk to the agent through the accumulator interface only. The accumulator is
  modelled as the log of the calls made on it, in the order they were made. A Go
  \<^verbatim>\<open>map[string]interface{}\<close> of fields is a partial map from field names to typed values, a
  \<^verbatim>\<open>map[string]string\<close> of tags a partial map from tag names to strings. The integers
  of the code are words of 64 bits; Go's \<^verbatim>\<open>int\<close> is taken at that width too, and no
  statement below depends on it. Strings are sequences of bytes, as in Go.
\<close>

type_synonym int64 = "64 word"
type_synonym uint64 = "64 word"
type_synonym goint = "64 word"

datatype fvalue =
    VInt64 int64
  | VUint64 uint64
  | VInt goint
  | VBool bool
  | VString string

datatype error =
    ErrParse
  | ErrSyntax
  | ErrRange
  | ErrExternal string
  | ErrUnableToParseAddress string error
  | ErrHTTPRequest string error
  | ErrHTTPStatus string string
  | ErrContentType string string
  | ErrDecodeJSON

type_synonym fields = "string \<rightharpoonup> fvalue"
type_synonym tags = "string \<rightharpoonup> string"

datatype call =
    AddFields string fields tags
  | AddError "error option"

type_synonym accumulator = "call list"

section \<open>The iptables plugin\<close>

subsection \<open>Regular expressions\<close>

text \<open>
  The three patterns of the plugin use character classes, literals, greedy and lazy
  repetition of a single class, capture groups and the begin-of-text anchor. Go's regexp
  package returns the leftmost match, and among those the one a backtracking search finds
  first; \<open>rmatch\<close> is that backtracking search. It returns the positions of the group
  brackets passed on the way, followed by the position where the match ends. The classes
  are Go's: \<^verbatim>\<open>\s\<close> is tab, newline, form feed, carriage return and space, \<^verbatim>\<open>\d\<close> and
  \<^verbatim>\<open>\w\<close> are the ASCII digits and word characters, and the dot is anything but a newline.
  Go matches code points where the model matches bytes; the two agree on these patterns,
  because every byte of a code point beyond ASCII is neither a space nor one of the literal
  characters, so that no group can begin or end inside a code point.
\<close>

datatype cclass = Lit char | Space | NotSpace | Digit | WordCh | AnyCh

datatype item =
    Bol
  | GroupOpen
  | GroupClose
  | One cclass
  | Star cclass
  | Plus cclass
  | LazyStar cclass
  | LazyPlus cclass

definition isSpace :: "char \<Rightarrow> bool" where
  "isSpace c = (c = CHR 0x09 \<or> c = CHR 0x0A \<or> c = CHR 0x0C \<or> c = CHR 0x0D \<or> c = CHR '' '')"

definition isDigit :: "char \<Rightarrow> bool" where
  "isDigit c = (48 \<le> (of_char c :: nat) \<and> (of_char c :: nat) \<le> 57)"

definition isWord :: "char \<Rightarrow> bool" where
  "isWord c = (isDigit c
     \<or> (65 \<le> (of_char c :: nat) \<and> (of_char c :: nat) \<le> 90)
     \<or> (97 \<le> (of_char c :: nat) \<and> (of_char c :: nat) \<le> 122)
     \<or> c = CHR ''_'')"

fun inClass :: "cclass \<Rightarrow> char \<Rightarrow> bool" where
  "inClass (Lit a) c = (c = a)"
| "inClass Space c = isSpace c"
| "inClass NotSpace c = (\<not> isSpace c)"
| "inClass Digit c = isDigit c"
| "inClass WordCh c = isWord c"
| "inClass AnyCh c = (c \<noteq> CHR 0x0A)"

fun rmatch :: "item list \<Rightarrow> nat \<Rightarrow> string \<Rightarrow> nat list option" where
  "rmatch [] p s = Some [p]"
| "rmatch (Bol # r) p s = (if p = 0 then rmatch r p s else None)"
| "rmatch (GroupOpen # r) p s = map_option ((#) p) (rmatch r p s)"
| "rmatch (GroupClose # r) p s = map_option ((#) p) (rmatch r p s)"
| "rmatch (One c # r) p [] = None"
| "rmatch (One c # r) p (x # xs) = (if inClass c x then rmatch r (Suc p) xs else None)"
| "rmatch (Star c # r) p [] = rmatch r p []"
| "rmatch (Star c # r) p (x # xs) =
     (if inClass c x
      then (case rmatch (Star c # r) (Suc p) xs of
              Some m \<Rightarrow> Some m
            | None \<Rightarrow> rmatch r p (x # xs))
      else rmatch r p (x # xs))"
| "rmatch (Plus c # r) p [] = None"
| "rmatch (Plus c # r) p (x # xs) =
     (if inClass c x then rmatch (Star c # r) (Suc p) xs else None)"
| "rmatch (LazyStar c # r) p [] = rmatch r p []"
| "rmatch (LazyStar c # r) p (x # xs) =
     (case rmatch r p (x # xs) of
        Some m \<Rightarrow> Some m
      | None \<Rightarrow> (if inClass c x then rmatch (LazyStar c # r) (Suc p) xs else None))"
| "rmatch (LazyPlus c # r) p [] = None"
| "rmatch (LazyPlus c # r) p (x # xs) =
     (if inClass c x then rmatch (LazyStar c # r) (Suc p) xs else None)"

text \<open>The unanchored search: the first start position, from the left, where the pattern matches.\<close>

fun findFrom :: "item list \<Rightarrow> nat \<Rightarrow> string \<Rightarrow> (nat \<times> nat list) option" where
  "findFrom re p [] = map_option (Pair p) (rmatch re p [])"
| "findFrom re p (x # xs) =
     (case rmatch re p (x # xs) of
        Some m \<Rightarrow> Some (p, m)
      | None \<Rightarrow> findFrom re (Suc p) xs)"

definition substr :: "string \<Rightarrow> nat \<Rightarrow> nat \<Rightarrow> string" where
  "substr s a b = take (b - a) (drop a s)"

fun groups :: "string \<Rightarrow> nat list \<Rightarrow> string list" where
  "groups s (a # b # ms) = substr s a b # groups s ms"
| "groups s ms = []"

definition FindStringSubmatch :: "item list \<Rightarrow> string \<Rightarrow> string list option" where
  "FindStringSubmatch re s =
     (case findFrom re 0 s of
        None \<Rightarrow> None
      | Some (st, m) \<Rightarrow> Some (substr s st (last m) # groups s m))"

definition MatchString :: "item list \<Rightarrow> string \<Rightarrow> bool" where
  "MatchString re s = (findFrom re 0 s \<noteq> None)"

text \<open>\<^verbatim>\<open>^Chain\s+(\S+)\<close>\<close>

definition chainNameRe :: "item list" where
  "chainNameRe =
     [Bol, One (Lit CHR ''C''), One (Lit CHR ''h''), One (Lit CHR ''a''), One (Lit CHR ''i''),
      One (Lit CHR ''n''), Plus Space, GroupOpen, Plus NotSpace, GroupClose]"

text \<open>\<^verbatim>\<open>^\s*pkts\s+bytes\s+target\<close>\<close>

definition fieldsHeaderRe :: "item list" where
  "fieldsHeaderRe =
     [Bol, Star Space,
      One (Lit CHR ''p''), One (Lit CHR ''k''), One (Lit CHR ''t''), One (Lit CHR ''s''),
      Plus Space,
      One (Lit CHR ''b''), One (Lit CHR ''y''), One (Lit CHR ''t''), One (Lit CHR ''e''),
      One (Lit CHR ''s''),
      Plus Space,
      One (Lit CHR ''t''), One (Lit CHR ''a''), One (Lit CHR ''r''), One (Lit CHR ''g''),
      One (Lit CHR ''e''), One (Lit CHR ''t'')]"

text \<open>\<^verbatim>\<open>^\s*(\d+)\s+(\d+)\s+(\w+).*?/\*\s*(.+?)\s*\*/\s*\<close>\<close>

definition valuesRe :: "item list" where
  "valuesRe =
     [Bol, Star Space,
      GroupOpen, Plus Digit, GroupClose, Plus Space,
      GroupOpen, Plus Digit, GroupClose, Plus Space,
      GroupOpen, Plus WordCh, GroupClose,
      LazyStar AnyCh, One (Lit CHR ''/''), One (Lit CHR ''*''), Star Space,
      GroupOpen, LazyPlus AnyCh, GroupClose,
      Star Space, One (Lit CHR ''*''), One (Lit CHR ''/''), Star Space]"

subsection \<open>Splitting into lines and parsing unsigned integers\<close>

text \<open>\<^verbatim>\<open>strings.Split(data, "\n")\<close>: one more piece than there are newlines.\<close>

fun splitLines :: "string \<Rightarrow> string list" where
  "splitLines [] = [[]]"
| "splitLines (c # cs) =
     (if c = CHR 0x0A then [] # splitLines cs
      else (case splitLines cs of l # ls \<Rightarrow> (c # l) # ls | [] \<Rightarrow> [[c]]))"

text \<open>
  \<^verbatim>\<open>strconv.ParseUint(s, 10, 64)\<close>: the digit loop of the library, with the overflow checks
  written out on unbounded numbers. \<open>cutoff\<close> is the least \<open>n\<close> with \<open>n * 10 > maxUint64\<close>.
\<close>

definition maxUint64 :: nat where
  "maxUint64 = 2 ^ 64 - 1"

definition cutoff :: nat where
  "cutoff = maxUint64 div 10 + 1"

definition digitVal :: "char \<Rightarrow> nat" where
  "digitVal c = of_char c - 48"

fun parseDigits :: "nat \<Rightarrow> string \<Rightarrow> error + nat" where
  "parseDigits n [] = Inr n"
| "parseDigits n (c # cs) =
     (if \<not> isDigit c then Inl ErrSyntax
      else if cutoff \<le> n then Inl ErrRange
      else if maxUint64 < n * 10 + digitVal c then Inl ErrRange
      else parseDigits (n * 10 + digitVal c) cs)"

definition ParseUint :: "string \<Rightarrow> error + uint64" where
  "ParseUint s =
     (if s = [] then Inl ErrSyntax
      else (case parseDigits 0 s of Inl e \<Rightarrow> Inl e | Inr n \<Rightarrow> Inr (of_nat n)))"

subsection \<open>The plugin\<close>

text \<open>
  The chain lister is a function stored in the plugin value; the constructor of the plugin
  sets it, so it is never nil. It returns the command output together with an optional
  error, as the Go function returns both. What the command prints is not modelled: the
  lister is an arbitrary function.
\<close>

record Iptables =
  UseSudo :: bool
  UseLock :: bool
  Binary :: string
  Table :: string
  Chains :: "string list"
  lister :: "string \<Rightarrow> string \<Rightarrow> string \<times> error option"

definition measurement :: string where
  "measurement = ''iptables''"

text \<open>The body of the loop over \<^verbatim>\<open>lines[2:]\<close>; every \<^verbatim>\<open>continue\<close> leaves the accumulator as it is.\<close>

fun gatherLines :: "string \<Rightarrow> string \<Rightarrow> string list \<Rightarrow> accumulator \<Rightarrow> accumulator" where
  "gatherLines table chain [] acc = acc"
| "gatherLines table chain (line # ls) acc =
     (case FindStringSubmatch valuesRe line of
        None \<Rightarrow> gatherLines table chain ls acc
      | Some matches \<Rightarrow>
          if length matches \<noteq> 5 then gatherLines table chain ls acc
          else
            let pkts = matches ! 1; bytes = matches ! 2;
                target = matches ! 3; comment = matches ! 4;
                tgs = [''table'' \<mapsto> table, ''chain'' \<mapsto> chain,
                       ''target'' \<mapsto> target, ''ruleid'' \<mapsto> comment]
            in (case ParseUint pkts of
                  Inl e \<Rightarrow> gatherLines table chain ls acc
                | Inr p \<Rightarrow>
                    (case ParseUint bytes of
                       Inl e \<Rightarrow> gatherLines table chain ls acc
                     | Inr b \<Rightarrow>
                         gatherLines table chain ls
                           (acc @ [AddFields measurement
                                     [''pkts'' \<mapsto> VUint64 p, ''bytes'' \<mapsto> VUint64 b] tgs]))))"

definition parseAndGather ::
  "('a Iptables_scheme) \<Rightarrow> string \<Rightarrow> accumulator \<Rightarrow> error option \<times> accumulator" where
  "parseAndGather ipt data acc =
     (let lines = splitLines data in
      if length lines < 3 then (None, acc)
      else
        (case FindStringSubmatch chainNameRe (lines ! 0) of
           None \<Rightarrow> (Some ErrParse, acc)
         | Some mchain \<Rightarrow>
             if \<not> MatchString fieldsHeaderRe (lines ! 1) then (Some ErrParse, acc)
             else (None, gatherLines (Table ipt) (mchain ! 1) (drop 2 lines) acc)))"

text \<open>
  \<open>Gather\<close> is the method of the iptables plugin (the one of the other plugin is
  \<open>ngx_Gather\<close> below). It threads the accumulator and the log of the lister's invocations,
  the table and the chain of each call, so that a statement can say which chains were
  listed.
\<close>

fun gatherChains ::
  "('a Iptables_scheme) \<Rightarrow> string list \<Rightarrow> accumulator \<times> (string \<times> string) list
     \<Rightarrow> accumulator \<times> (string \<times> string) list" where
  "gatherChains ipt [] st = st"
| "gatherChains ipt (chain # cs) (acc, listed) =
     (case lister ipt (Table ipt) chain of
        (data, Some e) \<Rightarrow>
          gatherChains ipt cs (acc @ [AddError (Some e)], listed @ [(Table ipt, chain)])
      | (data, None) \<Rightarrow>
          (case parseAndGather ipt data acc of
             (Some e, acc') \<Rightarrow>
               gatherChains ipt cs (acc' @ [AddError (Some e)], listed @ [(Table ipt, chain)])
           | (None, acc') \<Rightarrow>
               gatherChains ipt cs (acc', listed @ [(Table ipt, chain)])))"

definition Gather ::
  "('a Iptables_scheme) \<Rightarrow> accumulator \<times> (string \<times> string) list
     \<Rightarrow> error option \<times> accumulator \<times> (string \<times> string) list" where
  "Gather ipt st =
     (if Table ipt = [] \<or> length (Chains ipt) = 0 then (None, st)
      else (None, gatherChains ipt (Chains ipt) st))"

subsection \<open>Specification-side notions for the iptables plugin\<close>

text \<open>
  The definitions of this subsection are not translated from the code. They state, in
  declarative form, what the code is compared with: which strings a pattern describes, what
  number a digit string denotes, and which calls a line and a chain should produce.
\<close>

text \<open>
  \<open>derives r p s m\<close>: the string \<open>s\<close>, starting at position \<open>p\<close>, splits into one chunk per
  item of \<open>r\<close>, each chunk admitted by its item, and \<open>m\<close> lists the positions of the group
  brackets followed by the end position. There is no search order here.
\<close>

fun derives :: "item list \<Rightarrow> nat \<Rightarrow> string \<Rightarrow> nat list \<Rightarrow> bool" where
  "derives [] p s m = (s = [] \<and> m = [p])"
| "derives (Bol # r) p s m = (p = 0 \<and> derives r p s m)"
| "derives (GroupOpen # r) p s m = (\<exists>m'. m = p # m' \<and> derives r p s m')"
| "derives (GroupClose # r) p s m = (\<exists>m'. m = p # m' \<and> derives r p s m')"
| "derives (One c # r) p s m = (\<exists>x xs. s = x # xs \<and> inClass c x \<and> derives r (Suc p) xs m)"
| "derives (Star c # r) p s m =
     (\<exists>u v. s = u @ v \<and> list_all (inClass c) u \<and> derives r (p + length u) v m)"
| "derives (Plus c # r) p s m =
     (\<exists>u v. s = u @ v \<and> u \<noteq> [] \<and> list_all (inClass c) u \<and> derives r (p + length u) v m)"
| "derives (LazyStar c # r) p s m =
     (\<exists>u v. s = u @ v \<and> list_all (inClass c) u \<and> derives r (p + length u) v m)"
| "derives (LazyPlus c # r) p s m =
     (\<exists>u v. s = u @ v \<and> u \<noteq> [] \<and> list_all (inClass c) u \<and> derives r (p + length u) v m)"

text \<open>The number of group brackets of a pattern.\<close>

fun nbrackets :: "item list \<Rightarrow> nat" where
  "nbrackets [] = 0"
| "nbrackets (GroupOpen # r) = Suc (nbrackets r)"
| "nbrackets (GroupClose # r) = Suc (nbrackets r)"
| "nbrackets (i # r) = nbrackets r"

text \<open>The number a string of decimal digits denotes.\<close>

definition decimal :: "string \<Rightarrow> nat" where
  "decimal s = foldl (\<lambda>n c. n * 10 + digitVal c) 0 s"

text \<open>
  What one line of the rule listing contributes: one \<^verbatim>\<open>iptables\<close> metric when the line matches
  the counters pattern and both counters are unsigned 64-bit numbers, nothing otherwise.
\<close>

definition spec_ruleCalls :: "string \<Rightarrow> string \<Rightarrow> string \<Rightarrow> call list" where
  "spec_ruleCalls table chain line =
     (case FindStringSubmatch valuesRe line of
        None \<Rightarrow> []
      | Some m \<Rightarrow>
          (case ParseUint (m ! 1) of
             Inl e \<Rightarrow> []
           | Inr p \<Rightarrow>
               (case ParseUint (m ! 2) of
                  Inl e \<Rightarrow> []
                | Inr b \<Rightarrow>
                    [AddFields ''iptables''
                       [''pkts'' \<mapsto> VUint64 p, ''bytes'' \<mapsto> VUint64 b]
                       [''table'' \<mapsto> table, ''chain'' \<mapsto> chain,
                        ''target'' \<mapsto> m ! 3, ''ruleid'' \<mapsto> m ! 4]])))"

text \<open>
  What one chain contributes: the lister's error, or the metrics of its listing followed by
  the parse error if there is one.
\<close>

definition spec_chainCalls :: "('a Iptables_scheme) \<Rightarrow> string \<Rightarrow> call list" where
  "spec_chainCalls ipt chain =
     (case lister ipt (Table ipt) chain of
        (data, Some e) \<Rightarrow> [AddError (Some e)]
      | (data, None) \<Rightarrow>
          (case parseAndGather ipt data [] of
             (Some e, calls) \<Rightarrow> calls @ [AddError (Some e)]
           | (None, calls) \<Rightarrow> calls))"

subsection \<open>Example inputs of the iptables plugin\<close>

text \<open>
  A listing with a chain line, the header, one rule with a comment, one line that is not a
  rule, and one rule whose byte counter does not fit 64 bits.
\<close>

definition example_listing :: string where
  "example_listing =
     ''Chain INPUT (policy DROP)\<newline> pkts bytes target\<newline> 57 4520 RETURN tcp /* foobar */\<newline>junk\<newline> 1 99999999999999999999 A /* b */''"

definition example_lister :: "string \<Rightarrow> string \<Rightarrow> string \<times> error option" where
  "example_lister table chain =
     (if chain = ''INPUT'' then (example_listing, None)
      else if chain = ''EMPTY'' then (''Chain EMPTY\<newline>no header\<newline>'', None)
      else ([], Some (ErrExternal ''exit status 1'')))"

definition example_iptables :: Iptables where
  "example_iptables =
     \<lparr>UseSudo = False, UseLock = False, Binary = [], Table = ''filter'',
      Chains = [''NOCHAIN'', ''EMPTY'', ''INPUT''], lister = example_lister\<rparr>"

section \<open>The nginx_plus plugin\<close>

subsection \<open>The decoded status document\<close>

text \<open>
  One record per Go struct of the \<^verbatim>\<open>status\<close> type; the fields of a struct carry a prefix
  naming the struct, since several structs share field names. A pointer field is an option
  (\<open>None\<close> is the nil pointer a missing JSON key decodes to), a slice is a list, and a Go map
  is a list of key and value pairs in the order the \<^verbatim>\<open>range\<close> loop visits them, which the
  language leaves unspecified: every statement below holds for every order.
\<close>

record responseStats =
  Responses1xx :: int64
  Responses2xx :: int64
  Responses3xx :: int64
  Responses4xx :: int64
  Responses5xx :: int64
  rs_Total :: int64

record basicHitStats =
  bh_Responses :: int64
  bh_Bytes :: int64

record extendedHitStats = basicHitStats +
  ResponsesWritten :: int64
  BytesWritten :: int64

record healthCheckStats =
  Checks :: int64
  hc_Fails :: int64
  Unhealthy :: int64
  LastPassed :: "bool option"

record processes =
  Respawned :: "goint option"

record connections =
  Accepted :: int64
  Dropped :: int64
  conn_Active :: int64
  Idle :: int64

record ssl =
  Handshakes :: int64
  HandshakesFailed :: int64
  SessionReuses :: int64

record requests =
  req_Total :: int64
  Current :: goint

record serverZone =
  sz_Processing :: goint
  sz_Requests :: int64
  sz_Responses :: responseStats
  sz_Discarded :: "int64 option"
  sz_Received :: int64
  sz_Sent :: int64

record peer =
  p_ID :: "goint option"
  p_Server :: string
  p_Backup :: bool
  p_Weight :: goint
  p_State :: string
  p_Active :: goint
  p_Keepalive :: "goint option"
  p_MaxConns :: "goint option"
  p_Requests :: int64
  p_Responses :: responseStats
  p_Sent :: int64
  p_Received :: int64
  p_Fails :: int64
  p_Unavail :: int64
  p_HealthChecks :: healthCheckStats
  p_Downtime :: int64
  p_Downstart :: int64
  p_Selected :: "int64 option"
  p_HeaderTime :: "int64 option"
  p_ResponseTime :: "int64 option"

record queue =
  q_Size :: goint
  q_MaxSize :: goint
  q_Overflows :: int64

record upstream =
  u_Peers :: "peer list"
  u_Keepalive :: goint
  u_Zombies :: goint
  u_Queue :: "queue option"

record cache =
  c_Size :: int64
  c_MaxSize :: int64
  c_Cold :: bool
  c_Hit :: basicHitStats
  c_Stale :: basicHitStats
  c_Updating :: basicHitStats
  c_Revalidated :: "basicHitStats option"
  c_Miss :: extendedHitStats
  c_Expired :: extendedHitStats
  c_Bypass :: extendedHitStats

record streamZone =
  stz_Processing :: goint
  stz_Connections :: goint
  stz_Sessions :: "responseStats option"
  stz_Discarded :: "int64 option"
  stz_Received :: int64
  stz_Sent :: int64

record streamPeer =
  sp_ID :: goint
  sp_Server :: string
  sp_Backup :: bool
  sp_Weight :: goint
  sp_State :: string
  sp_Active :: goint
  sp_Connections :: int64
  sp_ConnectTime :: "goint option"
  sp_FirstByteTime :: "goint option"
  sp_ResponseTime :: "goint option"
  sp_Sent :: int64
  sp_Received :: int64
  sp_Fails :: int64
  sp_Unavail :: int64
  sp_HealthChecks :: healthCheckStats
  sp_Downtime :: int64
  sp_Downstart :: int64
  sp_Selected :: int64

record streamUpstream =
  su_Peers :: "streamPeer list"
  su_Zombies :: goint

record stream =
  st_ServerZones :: "(string \<times> streamZone) list"
  st_Upstreams :: "(string \<times> streamUpstream) list"

record status =
  Version :: goint
  NginxVersion :: string
  Address :: string
  Generation :: "goint option"
  LoadTimestamp :: "int64 option"
  Timestamp :: int64
  Pid :: "goint option"
  Processes :: "processes option"
  Connections :: connections
  Ssl :: "ssl option"
  Requests :: requests
  ServerZones :: "(string \<times> serverZone) list"
  Upstreams :: "(string \<times> upstream) list"
  Caches :: "(string \<times> cache) list"
  Stream :: stream

subsection \<open>Outcomes of a call\<close>

text \<open>
  A function of the plugin either returns or dereferences a nil pointer, which in Go is a
  run-time panic that nothing in the plugin recovers from. Both outcomes carry the
  accumulator as it stands at that moment.
\<close>

datatype 'r outcome = Returned 'r (acc_of: accumulator) | Panicked (acc_of: accumulator)

text \<open>\<^verbatim>\<open>strconv.Itoa\<close>: the decimal rendering of a signed integer.\<close>

function digitsOf :: "nat \<Rightarrow> string" where
  "digitsOf n = (if n < 10 then [char_of (48 + n)]
                 else digitsOf (n div 10) @ [char_of (48 + n mod 10)])"
  by pat_completeness auto
termination
  by (relation "measure id") auto

declare digitsOf.simps [simp del]

definition Itoa :: "goint \<Rightarrow> string" where
  "Itoa i = (if sint i < 0 then CHR ''-'' # digitsOf (nat (- sint i)) else digitsOf (nat (sint i)))"

subsection \<open>Flattening the status document\<close>

definition gatherProcessesMetrics :: "status \<Rightarrow> tags \<Rightarrow> accumulator \<Rightarrow> unit outcome" where
  "gatherProcessesMetrics s tags acc =
     (case Processes s of
        None \<Rightarrow> Panicked acc
      | Some pr \<Rightarrow>
          (let respawned = (case Respawned pr of None \<Rightarrow> 0 | Some r \<Rightarrow> r)
           in Returned ()
                (acc @ [AddFields ''nginx_plus_processes''
                          [''respawned'' \<mapsto> VInt respawned] tags])))"

definition gatherConnectionsMetrics :: "status \<Rightarrow> tags \<Rightarrow> accumulator \<Rightarrow> accumulator" where
  "gatherConnectionsMetrics s tags acc =
     acc @ [AddFields ''nginx_plus_connections''
              [''accepted'' \<mapsto> VInt64 (Accepted (Connections s)),
               ''dropped'' \<mapsto> VInt64 (Dropped (Connections s)),
               ''active'' \<mapsto> VInt64 (conn_Active (Connections s)),
               ''idle'' \<mapsto> VInt64 (Idle (Connections s))]
              tags]"

definition gatherSslMetrics :: "status \<Rightarrow> tags \<Rightarrow> accumulator \<Rightarrow> unit outcome" where
  "gatherSslMetrics s tags acc =
     (case Ssl s of
        None \<Rightarrow> Panicked acc
      | Some x \<Rightarrow>
          Returned ()
            (acc @ [AddFields ''nginx_plus_ssl''
                      [''handshakes'' \<mapsto> VInt64 (Handshakes x),
                       ''handshakes_failed'' \<mapsto> VInt64 (HandshakesFailed x),
                       ''session_reuses'' \<mapsto> VInt64 (SessionReuses x)]
                      tags]))"

definition gatherRequestMetrics :: "status \<Rightarrow> tags \<Rightarrow> accumulator \<Rightarrow> accumulator" where
  "gatherRequestMetrics s tags acc =
     acc @ [AddFields ''nginx_plus_requests''
              [''total'' \<mapsto> VInt64 (req_Total (Requests s)),
               ''current'' \<mapsto> VInt (Current (Requests s))]
              tags]"

text \<open>The function literal that builds the fields of one server zone.\<close>

definition zoneFields :: "serverZone \<Rightarrow> fields" where
  "zoneFields zone =
     (let result =
        [''processing'' \<mapsto> VInt (sz_Processing zone),
         ''requests'' \<mapsto> VInt64 (sz_Requests zone),
         ''responses_1xx'' \<mapsto> VInt64 (Responses1xx (sz_Responses zone)),
         ''responses_2xx'' \<mapsto> VInt64 (Responses2xx (sz_Responses zone)),
         ''responses_3xx'' \<mapsto> VInt64 (Responses3xx (sz_Responses zone)),
         ''responses_4xx'' \<mapsto> VInt64 (Responses4xx (sz_Responses zone)),
         ''responses_5xx'' \<mapsto> VInt64 (Responses5xx (sz_Responses zone)),
         ''responses_total'' \<mapsto> VInt64 (rs_Total (sz_Responses zone)),
         ''received'' \<mapsto> VInt64 (sz_Received zone),
         ''sent'' \<mapsto> VInt64 (sz_Sent zone)]
      in (case sz_Discarded zone of
            None \<Rightarrow> result
          | Some d \<Rightarrow> result(''discarded'' \<mapsto> VInt64 d)))"

fun gatherZones :: "tags \<Rightarrow> (string \<times> serverZone) list \<Rightarrow> accumulator \<Rightarrow> accumulator" where
  "gatherZones tags [] acc = acc"
| "gatherZones tags ((zoneName, zone) # zs) acc =
     (let zoneTags = tags(''zone'' \<mapsto> zoneName)
      in gatherZones tags zs (acc @ [AddFields ''nginx_plus_zone'' (zoneFields zone) zoneTags]))"

definition gatherZoneMetrics :: "status \<Rightarrow> tags \<Rightarrow> accumulator \<Rightarrow> accumulator" where
  "gatherZoneMetrics s tags acc = gatherZones tags (ServerZones s) acc"

definition upstreamFields :: "upstream \<Rightarrow> fields" where
  "upstreamFields upstream =
     (let fs =
        [''keepalive'' \<mapsto> VInt (u_Keepalive upstream),
         ''zombies'' \<mapsto> VInt (u_Zombies upstream)]
      in (case u_Queue upstream of
            None \<Rightarrow> fs
          | Some q \<Rightarrow>
              fs(''queue_size'' \<mapsto> VInt (q_Size q),
                 ''queue_max_size'' \<mapsto> VInt (q_MaxSize q),
                 ''queue_overflows'' \<mapsto> VInt64 (q_Overflows q))))"

definition peerFields :: "peer \<Rightarrow> fields" where
  "peerFields peer =
     (let selected = (case p_Selected peer of None \<Rightarrow> 0 | Some v \<Rightarrow> v);
          f0 =
            [''backup'' \<mapsto> VBool (p_Backup peer),
             ''weight'' \<mapsto> VInt (p_Weight peer),
             ''state'' \<mapsto> VString (p_State peer),
             ''active'' \<mapsto> VInt (p_Active peer),
             ''requests'' \<mapsto> VInt64 (p_Requests peer),
             ''responses_1xx'' \<mapsto> VInt64 (Responses1xx (p_Responses peer)),
             ''responses_2xx'' \<mapsto> VInt64 (Responses2xx (p_Responses peer)),
             ''responses_3xx'' \<mapsto> VInt64 (Responses3xx (p_Responses peer)),
             ''responses_4xx'' \<mapsto> VInt64 (Responses4xx (p_Responses peer)),
             ''responses_5xx'' \<mapsto> VInt64 (Responses5xx (p_Responses peer)),
             ''responses_total'' \<mapsto> VInt64 (rs_Total (p_Responses peer)),
             ''sent'' \<mapsto> VInt64 (p_Sent peer),
             ''received'' \<mapsto> VInt64 (p_Received peer),
             ''fails'' \<mapsto> VInt64 (p_Fails peer),
             ''unavail'' \<mapsto> VInt64 (p_Unavail peer),
             ''healthchecks_checks'' \<mapsto> VInt64 (Checks (p_HealthChecks peer)),
             ''healthchecks_fails'' \<mapsto> VInt64 (hc_Fails (p_HealthChecks peer)),
             ''healthchecks_unhealthy'' \<mapsto> VInt64 (Unhealthy (p_HealthChecks peer)),
             ''downtime'' \<mapsto> VInt64 (p_Downtime peer),
             ''downstart'' \<mapsto> VInt64 (p_Downstart peer),
             ''selected'' \<mapsto> VInt64 selected];
          f1 = (case LastPassed (p_HealthChecks peer) of
                  None \<Rightarrow> f0 | Some v \<Rightarrow> f0(''healthchecks_last_passed'' \<mapsto> VBool v));
          f2 = (case p_HeaderTime peer of
                  None \<Rightarrow> f1 | Some v \<Rightarrow> f1(''header_time'' \<mapsto> VInt64 v));
          f3 = (case p_ResponseTime peer of
                  None \<Rightarrow> f2 | Some v \<Rightarrow> f2(''response_time'' \<mapsto> VInt64 v))
      in (case p_MaxConns peer of
            None \<Rightarrow> f3 | Some v \<Rightarrow> f3(''max_conns'' \<mapsto> VInt v)))"

definition peerTags :: "tags \<Rightarrow> peer \<Rightarrow> tags" where
  "peerTags upstreamTags peer =
     (let pt = upstreamTags(''upstream_address'' \<mapsto> p_Server peer)
      in (case p_ID peer of
            None \<Rightarrow> pt
          | Some i \<Rightarrow> pt(''id'' \<mapsto> Itoa i)))"

fun gatherPeers :: "tags \<Rightarrow> peer list \<Rightarrow> accumulator \<Rightarrow> accumulator" where
  "gatherPeers upstreamTags [] acc = acc"
| "gatherPeers upstreamTags (peer # ps) acc =
     gatherPeers upstreamTags ps
       (acc @ [AddFields ''nginx_plus_upstream_peer'' (peerFields peer)
                 (peerTags upstreamTags peer)])"

fun gatherUpstreams :: "tags \<Rightarrow> (string \<times> upstream) list \<Rightarrow> accumulator \<Rightarrow> accumulator" where
  "gatherUpstreams tags [] acc = acc"
| "gatherUpstreams tags ((upstreamName, upstream) # us) acc =
     (let upstreamTags = tags(''upstream'' \<mapsto> upstreamName)
      in gatherUpstreams tags us
           (gatherPeers upstreamTags (u_Peers upstream)
              (acc @ [AddFields ''nginx_plus_upstream'' (upstreamFields upstream) upstreamTags])))"

definition gatherUpstreamMetrics :: "status \<Rightarrow> tags \<Rightarrow> accumulator \<Rightarrow> accumulator" where
  "gatherUpstreamMetrics s tags acc = gatherUpstreams tags (Upstreams s) acc"

text \<open>
  The fields of one cache. The map literal reads \<^verbatim>\<open>cache.Revalidated.Responses\<close> without a
  test; with a nil \<^verbatim>\<open>Revalidated\<close> building the literal panics, which is \<open>None\<close> here.
\<close>

definition cacheFields :: "cache \<Rightarrow> fields option" where
  "cacheFields cache =
     (case c_Revalidated cache of
        None \<Rightarrow> None
      | Some rv \<Rightarrow>
          Some [''size'' \<mapsto> VInt64 (c_Size cache),
                ''max_size'' \<mapsto> VInt64 (c_MaxSize cache),
                ''cold'' \<mapsto> VBool (c_Cold cache),
                ''hit_responses'' \<mapsto> VInt64 (bh_Responses (c_Hit cache)),
                ''hit_bytes'' \<mapsto> VInt64 (bh_Bytes (c_Hit cache)),
                ''stale_responses'' \<mapsto> VInt64 (bh_Responses (c_Stale cache)),
                ''stale_bytes'' \<mapsto> VInt64 (bh_Bytes (c_Stale cache)),
                ''updating_responses'' \<mapsto> VInt64 (bh_Responses (c_Updating cache)),
                ''updating_bytes'' \<mapsto> VInt64 (bh_Bytes (c_Updating cache)),
                ''revalidated_responses'' \<mapsto> VInt64 (bh_Responses rv),
                ''revalidated_bytes'' \<mapsto> VInt64 (bh_Bytes rv),
                ''miss_responses'' \<mapsto> VInt64 (bh_Responses (c_Miss cache)),
                ''miss_bytes'' \<mapsto> VInt64 (bh_Bytes (c_Miss cache)),
                ''miss_responses_written'' \<mapsto> VInt64 (ResponsesWritten (c_Miss cache)),
                ''miss_bytes_written'' \<mapsto> VInt64 (BytesWritten (c_Miss cache)),
                ''expired_responses'' \<mapsto> VInt64 (bh_Responses (c_Expired cache)),
                ''expired_bytes'' \<mapsto> VInt64 (bh_Bytes (c_Expired cache)),
                ''expired_responses_written'' \<mapsto> VInt64 (ResponsesWritten (c_Expired cache)),
                ''expired_bytes_written'' \<mapsto> VInt64 (BytesWritten (c_Expired cache)),
                ''bypass_responses'' \<mapsto> VInt64 (bh_Responses (c_Bypass cache)),
                ''bypass_bytes'' \<mapsto> VInt64 (bh_Bytes (c_Bypass cache)),
                ''bypass_responses_written'' \<mapsto> VInt64 (ResponsesWritten (c_Bypass cache)),
                ''bypass_bytes_written'' \<mapsto> VInt64 (BytesWritten (c_Bypass cache))])"

fun gatherCaches :: "tags \<Rightarrow> (string \<times> cache) list \<Rightarrow> accumulator \<Rightarrow> unit outcome" where
  "gatherCaches tags [] acc = Returned () acc"
| "gatherCaches tags ((cacheName, cache) # cs) acc =
     (let cacheTags = tags(''cache'' \<mapsto> cacheName)
      in (case cacheFields cache of
            None \<Rightarrow> Panicked acc
          | Some fs \<Rightarrow> gatherCaches tags cs (acc @ [AddFields ''nginx_plus_cache'' fs cacheTags])))"

definition gatherCacheMetrics :: "status \<Rightarrow> tags \<Rightarrow> accumulator \<Rightarrow> unit outcome" where
  "gatherCacheMetrics s tags acc = gatherCaches tags (Caches s) acc"

fun gatherStreamZones ::
  "tags \<Rightarrow> (string \<times> streamZone) list \<Rightarrow> accumulator \<Rightarrow> accumulator" where
  "gatherStreamZones tags [] acc = acc"
| "gatherStreamZones tags ((zoneName, zone) # zs) acc =
     (let zoneTags = tags(''zone'' \<mapsto> zoneName)
      in gatherStreamZones tags zs
           (acc @ [AddFields ''nginx.stream.zone''
                     [''processing'' \<mapsto> VInt (stz_Processing zone),
                      ''connections'' \<mapsto> VInt (stz_Connections zone),
                      ''received'' \<mapsto> VInt64 (stz_Received zone),
                      ''sent'' \<mapsto> VInt64 (stz_Sent zone)]
                     zoneTags]))"

definition streamPeerFields :: "streamPeer \<Rightarrow> fields" where
  "streamPeerFields peer =
     (let f0 =
            [''backup'' \<mapsto> VBool (sp_Backup peer),
             ''weight'' \<mapsto> VInt (sp_Weight peer),
             ''state'' \<mapsto> VString (sp_State peer),
             ''active'' \<mapsto> VInt (sp_Active peer),
             ''connections'' \<mapsto> VInt64 (sp_Connections peer),
             ''sent'' \<mapsto> VInt64 (sp_Sent peer),
             ''received'' \<mapsto> VInt64 (sp_Received peer),
             ''fails'' \<mapsto> VInt64 (sp_Fails peer),
             ''unavail'' \<mapsto> VInt64 (sp_Unavail peer),
             ''healthchecks_checks'' \<mapsto> VInt64 (Checks (sp_HealthChecks peer)),
             ''healthchecks_fails'' \<mapsto> VInt64 (hc_Fails (sp_HealthChecks peer)),
             ''healthchecks_unhealthy'' \<mapsto> VInt64 (Unhealthy (sp_HealthChecks peer)),
             ''downtime'' \<mapsto> VInt64 (sp_Downtime peer),
             ''downstart'' \<mapsto> VInt64 (sp_Downstart peer),
             ''selected'' \<mapsto> VInt64 (sp_Selected peer)];
          f1 = (case LastPassed (sp_HealthChecks peer) of
                  None \<Rightarrow> f0 | Some v \<Rightarrow> f0(''healthchecks_last_passed'' \<mapsto> VBool v));
          f2 = (case sp_ConnectTime peer of
                  None \<Rightarrow> f1 | Some v \<Rightarrow> f1(''connect_time'' \<mapsto> VInt v));
          f3 = (case sp_FirstByteTime peer of
                  None \<Rightarrow> f2 | Some v \<Rightarrow> f2(''first_byte_time'' \<mapsto> VInt v))
      in (case sp_ResponseTime peer of
            None \<Rightarrow> f3 | Some v \<Rightarrow> f3(''response_time'' \<mapsto> VInt v)))"

definition streamPeerTags :: "tags \<Rightarrow> streamPeer \<Rightarrow> tags" where
  "streamPeerTags upstreamTags peer =
     upstreamTags(''upstream_address'' \<mapsto> sp_Server peer, ''id'' \<mapsto> Itoa (sp_ID peer))"

fun gatherStreamPeers :: "tags \<Rightarrow> streamPeer list \<Rightarrow> accumulator \<Rightarrow> accumulator" where
  "gatherStreamPeers upstreamTags [] acc = acc"
| "gatherStreamPeers upstreamTags (peer # ps) acc =
     gatherStreamPeers upstreamTags ps
       (acc @ [AddFields ''nginx_plus_stream_upstream_peer'' (streamPeerFields peer)
                 (streamPeerTags upstreamTags peer)])"

fun gatherStreamUpstreams ::
  "tags \<Rightarrow> (string \<times> streamUpstream) list \<Rightarrow> accumulator \<Rightarrow> accumulator" where
  "gatherStreamUpstreams tags [] acc = acc"
| "gatherStreamUpstreams tags ((upstreamName, upstream) # us) acc =
     (let upstreamTags = tags(''upstream'' \<mapsto> upstreamName)
      in gatherStreamUpstreams tags us
           (gatherStreamPeers upstreamTags (su_Peers upstream)
              (acc @ [AddFields ''nginx_plus_stream_upstream''
                        [''zombies'' \<mapsto> VInt (su_Zombies upstream)] upstreamTags])))"

definition gatherStreamMetrics :: "status \<Rightarrow> tags \<Rightarrow> accumulator \<Rightarrow> accumulator" where
  "gatherStreamMetrics s tags acc =
     gatherStreamUpstreams tags (st_Upstreams (Stream s))
       (gatherStreamZones tags (st_ServerZones (Stream s)) acc)"

text \<open>The eight sections in the order of the source; a panic ends the call.\<close>

definition gather :: "status \<Rightarrow> tags \<Rightarrow> accumulator \<Rightarrow> unit outcome" where
  "gather s tags acc =
     (case gatherProcessesMetrics s tags acc of
        Panicked a \<Rightarrow> Panicked a
      | Returned _ a1 \<Rightarrow>
          (case gatherSslMetrics s tags (gatherConnectionsMetrics s tags a1) of
             Panicked a \<Rightarrow> Panicked a
           | Returned _ a2 \<Rightarrow>
               (case gatherCacheMetrics s tags
                       (gatherUpstreamMetrics s tags
                          (gatherZoneMetrics s tags (gatherRequestMetrics s tags a2))) of
                  Panicked a \<Rightarrow> Panicked a
                | Returned _ a3 \<Rightarrow> Returned () (gatherStreamMetrics s tags a3))))"

subsection \<open>Fetching one URL\<close>

text \<open>
  The plugin calls into Go's libraries for TLS configuration, URL parsing, HTTP and JSON.
  Their behaviour is a parameter of the model: a record of functions, about which nothing is
  assumed. \<open>url_String\<close> stands for the result of the \<^verbatim>\<open>String\<close> method of a parsed URL,
  \<open>ContentType\<close> for \<^verbatim>\<open>Header.Get("Content-Type")\<close> and \<open>Body\<close> for the bytes the JSON decoder
  reads.
\<close>

record url =
  Scheme :: string
  Host :: string
  url_String :: string

record response =
  StatusCode :: int
  Status :: string
  ContentType :: string
  Body :: string

record 't client =
  TLSClientConfig :: 't
  Timeout :: int64

record ('c, 't) library =
  TLSConfig :: "'c \<Rightarrow> error + 't"
  urlParse :: "string \<Rightarrow> error + url"
  httpGet :: "'t client \<Rightarrow> string \<Rightarrow> error + response"
  jsonDecode :: "string \<Rightarrow> status option"
  SplitHostPort :: "string \<Rightarrow> (string \<times> string) option"

record ('c, 't) NginxPlus =
  Urls :: "string list"
  ResponseTimeout :: int64
  ClientConfig :: 'c
  client :: "'t client option"

definition getTags :: "('c, 't) library \<Rightarrow> url \<Rightarrow> tags" where
  "getTags lib addr =
     (let h = Host addr
      in (case SplitHostPort lib h of
            Some (host, port) \<Rightarrow> [''server'' \<mapsto> host, ''port'' \<mapsto> port]
          | None \<Rightarrow>
              (let host = Host addr;
                   port = (if Scheme addr = ''http'' then ''80''
                           else if Scheme addr = ''https'' then ''443''
                           else [])
               in [''server'' \<mapsto> host, ''port'' \<mapsto> port])))"

definition gatherStatusURL ::
  "('c, 't) library \<Rightarrow> string \<Rightarrow> tags \<Rightarrow> accumulator \<Rightarrow> error option outcome" where
  "gatherStatusURL lib r tags acc =
     (case jsonDecode lib r of
        None \<Rightarrow> Returned (Some ErrDecodeJSON) acc
      | Some status \<Rightarrow>
          (case gather status tags acc of
             Panicked a \<Rightarrow> Panicked a
           | Returned _ a \<Rightarrow> Returned None a))"

text \<open>\<^verbatim>\<open>n.client.Get\<close> on a nil client is a nil dereference as well.\<close>

definition gatherURL ::
  "('c, 't) library \<Rightarrow> ('c, 't) NginxPlus \<Rightarrow> url \<Rightarrow> accumulator \<Rightarrow> error option outcome" where
  "gatherURL lib n addr acc =
     (case client n of
        None \<Rightarrow> Panicked acc
      | Some c \<Rightarrow>
          (case httpGet lib c (url_String addr) of
             Inl err \<Rightarrow> Returned (Some (ErrHTTPRequest (url_String addr) err)) acc
           | Inr resp \<Rightarrow>
               if StatusCode resp \<noteq> 200
               then Returned (Some (ErrHTTPStatus (url_String addr) (Status resp))) acc
               else
                 (let contentType = takeWhile (\<lambda>c. c \<noteq> CHR '';'') (ContentType resp)
                  in if contentType = ''application/json''
                     then gatherStatusURL lib (Body resp) (getTags lib addr) acc
                     else Returned (Some (ErrContentType (url_String addr) contentType)) acc)))"

subsection \<open>The HTTP client\<close>

text \<open>Durations are signed 64-bit counts of nanoseconds.\<close>

definition Second :: int64 where
  "Second = 1000000000"

definition createHTTPClient ::
  "('c, 't) library \<Rightarrow> ('c, 't) NginxPlus \<Rightarrow> ('c, 't) NginxPlus \<times> (error + 't client)" where
  "createHTTPClient lib n =
     (let n1 = (if sint (ResponseTimeout n) < sint Second
                then n\<lparr>ResponseTimeout := Second * 5\<rparr> else n)
      in (case TLSConfig lib (ClientConfig n1) of
            Inl err \<Rightarrow> (n1, Inl err)
          | Inr tlsConfig \<Rightarrow>
              (n1, Inr \<lparr>TLSClientConfig = tlsConfig, Timeout = ResponseTimeout n1\<rparr>)))"

subsection \<open>Gather: one goroutine per URL and a wait barrier\<close>

text \<open>
  A goroutine runs \<^verbatim>\<open>acc.AddError(n.gatherURL(addr, acc))\<close>: it makes the accumulator calls
  of \<open>gatherURL\<close> and then reports the returned error (also when it is nil), or it ends in
  the panic of \<open>gatherURL\<close>. It is represented by the calls it still has to make and by
  whether it panics after them.
\<close>

type_synonym goroutine = "call list \<times> bool"

definition goroutine :: "('c, 't) library \<Rightarrow> ('c, 't) NginxPlus \<Rightarrow> url \<Rightarrow> goroutine" where
  "goroutine lib n addr =
     (case gatherURL lib n addr [] of
        Returned err calls \<Rightarrow> (calls @ [AddError err], False)
      | Panicked calls \<Rightarrow> (calls, True))"

text \<open>
  The state of a running \<open>Gather\<close>: the URLs the loop has not reached yet, the goroutines
  started so far, the accumulator they share, and whether an unrecovered panic has
  terminated the program.
\<close>

record gstate =
  pending :: "string list"
  running :: "goroutine list"
  shared :: accumulator
  crashed :: bool

text \<open>One iteration of the loop over the URLs, run by the caller's goroutine.\<close>

definition mainStep :: "('c, 't) library \<Rightarrow> ('c, 't) NginxPlus \<Rightarrow> gstate \<Rightarrow> gstate" where
  "mainStep lib n st =
     (case pending st of
        [] \<Rightarrow> st
      | u # us \<Rightarrow>
          (case urlParse lib u of
             Inl err \<Rightarrow>
               st\<lparr>pending := us,
                  shared := shared st @ [AddError (Some (ErrUnableToParseAddress u err))]\<rparr>
           | Inr addr \<Rightarrow>
               st\<lparr>pending := us, running := running st @ [goroutine lib n addr]\<rparr>))"

text \<open>One step of the goroutine number \<open>i\<close>: its next accumulator call, or its panic.\<close>

definition threadStep :: "nat \<Rightarrow> gstate \<Rightarrow> gstate" where
  "threadStep i st =
     (if i < length (running st)
      then (case running st ! i of
              (c # cs, b) \<Rightarrow>
                st\<lparr>running := (running st)[i := (cs, b)], shared := shared st @ [c]\<rparr>
            | ([], True) \<Rightarrow> st\<lparr>crashed := True\<rparr>
            | ([], False) \<Rightarrow> st)
      else st)"

text \<open>
  The scheduler is a parameter: a list of choices, \<open>0\<close> for the caller's goroutine and
  \<open>Suc i\<close> for the goroutine number \<open>i\<close>. Nothing runs after a crash.
\<close>

fun run :: "('c, 't) library \<Rightarrow> ('c, 't) NginxPlus \<Rightarrow> nat list \<Rightarrow> gstate \<Rightarrow> gstate" where
  "run lib n [] st = st"
| "run lib n (k # ks) st =
     (if crashed st then st
      else run lib n ks (case k of 0 \<Rightarrow> mainStep lib n st | Suc i \<Rightarrow> threadStep i st))"

text \<open>
  When the list of choices is used up, whatever is left runs to completion: the loop first,
  then the goroutines one after the other. Every interleaving is the run of some list of
  choices, so quantifying over the lists covers every behaviour of the Go scheduler.
\<close>

fun finishLoop :: "('c, 't) library \<Rightarrow> ('c, 't) NginxPlus \<Rightarrow> nat \<Rightarrow> gstate \<Rightarrow> gstate" where
  "finishLoop lib n 0 st = st"
| "finishLoop lib n (Suc k) st = finishLoop lib n k (mainStep lib n st)"

fun finishThread :: "nat \<Rightarrow> nat \<Rightarrow> gstate \<Rightarrow> gstate" where
  "finishThread i 0 st = st"
| "finishThread i (Suc k) st =
     (if crashed st then st else finishThread i k (threadStep i st))"

fun finishThreads :: "nat list \<Rightarrow> gstate \<Rightarrow> gstate" where
  "finishThreads [] st = st"
| "finishThreads (i # is) st =
     finishThreads is (finishThread i (Suc (length (fst (running st ! i)))) st)"

definition finish :: "('c, 't) library \<Rightarrow> ('c, 't) NginxPlus \<Rightarrow> gstate \<Rightarrow> gstate" where
  "finish lib n st =
     (if crashed st then st
      else (let st1 = finishLoop lib n (length (pending st)) st
            in finishThreads [0..<length (running st1)] st1))"

datatype goutcome = GReturned "error option" (gacc_of: accumulator) | GCrashed (gacc_of: accumulator)

text \<open>
  \<open>wg.Wait()\<close> returns when every goroutine is done; \<open>Gather\<close> then returns nil. The part
  before the loop creates the client when there is none.
\<close>

definition gatherAll ::
  "('c, 't) library \<Rightarrow> ('c, 't) NginxPlus \<Rightarrow> nat list \<Rightarrow> accumulator \<Rightarrow> goutcome" where
  "gatherAll lib n sched acc =
     (let st = finish lib n
                 (run lib n sched
                    \<lparr>pending = Urls n, running = [], shared = acc, crashed = False\<rparr>)
      in if crashed st then GCrashed (shared st) else GReturned None (shared st))"

definition ngx_Gather ::
  "('c, 't) library \<Rightarrow> ('c, 't) NginxPlus \<Rightarrow> nat list \<Rightarrow> accumulator
     \<Rightarrow> ('c, 't) NginxPlus \<times> goutcome" where
  "ngx_Gather lib n sched acc =
     (case client n of
        None \<Rightarrow>
          (case createHTTPClient lib n of
             (n1, Inl err) \<Rightarrow> (n1, GReturned (Some err) acc)
           | (n1, Inr c) \<Rightarrow>
               (n1\<lparr>client := Some c\<rparr>, gatherAll lib (n1\<lparr>client := Some c\<rparr>) sched acc))
      | Some c \<Rightarrow> (n, gatherAll lib n sched acc))"

subsection \<open>Example inputs of the nginx_plus plugin\<close>

text \<open>
  \<open>empty_status\<close> is the value the JSON document \<^verbatim>\<open>{}\<close> decodes to: every field has its zero
  value and every pointer is nil. \<open>status_v4\<close> is a document of schema version 4, which has
  neither a processes nor an ssl section. \<open>status_v6\<close> has both.
\<close>

definition empty_status :: status where
  "empty_status =
     \<lparr>Version = 0, NginxVersion = [], Address = [], Generation = None, LoadTimestamp = None,
      Timestamp = 0, Pid = None, Processes = None,
      Connections = \<lparr>Accepted = 0, Dropped = 0, conn_Active = 0, Idle = 0\<rparr>,
      Ssl = None,
      Requests = \<lparr>req_Total = 0, Current = 0\<rparr>,
      ServerZones = [], Upstreams = [], Caches = [],
      Stream = \<lparr>st_ServerZones = [], st_Upstreams = []\<rparr>\<rparr>"

definition status_v4 :: status where
  "status_v4 =
     empty_status
       \<lparr>Version := 4, NginxVersion := ''1.9.4'',
        Connections := \<lparr>Accepted = 10, Dropped = 0, conn_Active = 2, Idle = 1\<rparr>,
        Requests := \<lparr>req_Total = 7, Current = 1\<rparr>\<rparr>"

definition status_v6 :: status where
  "status_v6 =
     status_v4
       \<lparr>Version := 6,
        Processes := Some \<lparr>Respawned = Some 3\<rparr>,
        Ssl := Some \<lparr>Handshakes = 5, HandshakesFailed = 1, SessionReuses = 2\<rparr>\<rparr>"

definition zero_hits :: extendedHitStats where
  "zero_hits = \<lparr>bh_Responses = 0, bh_Bytes = 0, ResponsesWritten = 0, BytesWritten = 0\<rparr>"

text \<open>A cache as schema version 2 reports it: without the revalidated block.\<close>

definition cache_v2 :: cache where
  "cache_v2 =
     \<lparr>c_Size = 1, c_MaxSize = 2, c_Cold = False,
      c_Hit = \<lparr>bh_Responses = 0, bh_Bytes = 0\<rparr>,
      c_Stale = \<lparr>bh_Responses = 0, bh_Bytes = 0\<rparr>,
      c_Updating = \<lparr>bh_Responses = 0, bh_Bytes = 0\<rparr>,
      c_Revalidated = None,
      c_Miss = zero_hits, c_Expired = zero_hits, c_Bypass = zero_hits\<rparr>"

definition example_tags :: tags where
  "example_tags = [''server'' \<mapsto> ''localhost'', ''port'' \<mapsto> ''80'']"

text \<open>
  A library behaviour for the examples: three URLs parse, a fourth string does not; the
  server behind the first URL answers with a version 6 document, the one behind the second
  with a version 4 document, the third with an HTML page, and a fourth with status 404. The
  response bodies are named rather than spelled out, the decoder maps the names to the
  documents above.
\<close>

definition example_library :: "(unit, unit) library" where
  "example_library =
     \<lparr>TLSConfig = (\<lambda>cfg. Inr ()),
      urlParse = (\<lambda>u.
        if u = ''http://localhost:8080/status''
        then Inr \<lparr>Scheme = ''http'', Host = ''localhost:8080'', url_String = u\<rparr>
        else if u = ''https://old/status''
        then Inr \<lparr>Scheme = ''https'', Host = ''old'', url_String = u\<rparr>
        else if u = ''http://web/''
        then Inr \<lparr>Scheme = ''http'', Host = ''web'', url_String = u\<rparr>
        else Inl (ErrExternal ''invalid URL'')),
      httpGet = (\<lambda>c u.
        if u = ''http://localhost:8080/status''
        then Inr \<lparr>StatusCode = 200, Status = ''200 OK'',
                  ContentType = ''application/json; charset=utf-8'', Body = ''v6''\<rparr>
        else if u = ''https://old/status''
        then Inr \<lparr>StatusCode = 200, Status = ''200 OK'',
                  ContentType = ''application/json'', Body = ''v4''\<rparr>
        else if u = ''http://web/''
        then Inr \<lparr>StatusCode = 200, Status = ''200 OK'',
                  ContentType = ''text/html'', Body = ''<html>''\<rparr>
        else if u = ''http://gone/''
        then Inr \<lparr>StatusCode = 404, Status = ''404 Not Found'',
                  ContentType = ''text/html'', Body = []\<rparr>
        else Inl (ErrExternal ''connection refused'')),
      jsonDecode = (\<lambda>b.
        if b = ''v6'' then Some status_v6 else if b = ''v4'' then Some status_v4 else None),
      SplitHostPort = (\<lambda>h.
        if h = ''localhost:8080'' then Some (''localhost'', ''8080'') else None)\<rparr>"

definition example_client :: "unit client" where
  "example_client = \<lparr>TLSClientConfig = (), Timeout = 5000000000\<rparr>"

definition example_plugin :: "(unit, unit) NginxPlus" where
  "example_plugin =
     \<lparr>Urls = [''http://localhost:8080/status'', ''::bad::'', ''http://web/''],
      ResponseTimeout = 0, ClientConfig = (), client = None\<rparr>"

definition old_plugin :: "(unit, unit) NginxPlus" where
  "old_plugin =
     \<lparr>Urls = [''https://old/status''],
      ResponseTimeout = 5000000000, ClientConfig = (), client = None\<rparr>"

definition localhost_url :: url where
  "localhost_url =
     \<lparr>Scheme = ''http'', Host = ''localhost:8080'', url_String = ''http://localhost:8080/status''\<rparr>"

definition old_url :: url where
  "old_url = \<lparr>Scheme = ''https'', Host = ''old'', url_String = ''https://old/status''\<rparr>"

definition web_url :: url where
  "web_url = \<lparr>Scheme = ''http'', Host = ''web'', url_String = ''http://web/''\<rparr>"

definition gone_url :: url where
  "gone_url = \<lparr>Scheme = ''http'', Host = ''gone'', url_String = ''http://gone/''\<rparr>"

subsection \<open>Specification-side notions for Gather\<close>

text \<open>
  Not translated from the code: what one configured URL contributes to the accumulator,
  whether its goroutine panics, and the bookkeeping used to reason about every schedule.
\<close>

definition urlCalls :: "('c, 't) library \<Rightarrow> ('c, 't) NginxPlus \<Rightarrow> string \<Rightarrow> call list" where
  "urlCalls lib n u =
     (case urlParse lib u of
        Inl err \<Rightarrow> [AddError (Some (ErrUnableToParseAddress u err))]
      | Inr addr \<Rightarrow> fst (goroutine lib n addr))"

definition urlPanics :: "('c, 't) library \<Rightarrow> ('c, 't) NginxPlus \<Rightarrow> string \<Rightarrow> bool" where
  "urlPanics lib n u =
     (case urlParse lib u of Inl err \<Rightarrow> False | Inr addr \<Rightarrow> snd (goroutine lib n addr))"

text \<open>The calls made so far together with the calls still to come.\<close>

definition outstanding :: "('c, 't) library \<Rightarrow> ('c, 't) NginxPlus \<Rightarrow> gstate \<Rightarrow> call multiset" where
  "outstanding lib n st =
     mset (shared st) + mset (concat (map (urlCalls lib n) (pending st)))
       + mset (concat (map fst (running st)))"

definition panicAhead :: "('c, 't) library \<Rightarrow> ('c, 't) NginxPlus \<Rightarrow> gstate \<Rightarrow> bool" where
  "panicAhead lib n st =
     (list_ex (urlPanics lib n) (pending st) \<or> list_ex snd (running st))"

definition threadDone :: "nat \<Rightarrow> gstate \<Rightarrow> bool" where
  "threadDone i st = (crashed st \<or> running st ! i = ([], False))"

text \<open>An outcome whose accumulator is prefixed by earlier calls.\<close>

definition extend :: "accumulator \<Rightarrow> 'r outcome \<Rightarrow> 'r outcome" where
  "extend acc out =
     (case out of Returned r calls \<Rightarrow> Returned r (acc @ calls)
               | Panicked calls \<Rightarrow> Panicked (acc @ calls))"

section \<open>Properties of the iptables plugin\<close>

subsection \<open>The backtracking search against the declarative reading of a pattern\<close>

lemma inClass_eta:
  "inClass Space = isSpace"
  "inClass NotSpace = (\<lambda>c. \<not> isSpace c)"
  "inClass Digit = isDigit"
  "inClass WordCh = isWord"
  "inClass AnyCh = (\<lambda>c. c \<noteq> CHR 0x0A)"
  by (rule ext, simp)+

lemma derives_Star_skip: "derives r p u m \<Longrightarrow> derives (Star c # r) p u m"
  by (simp, rule exI [of _ "[]"]) simp

lemma derives_Star_cons:
  "inClass c x \<Longrightarrow> derives (Star c # r) (Suc p) u m \<Longrightarrow> derives (Star c # r) p (x # u) m"
  apply simp
  apply (elim exE conjE)
  subgoal for a b by (rule exI [of _ "x # a"]) simp
  done

lemma derives_Plus_cons:
  "inClass c x \<Longrightarrow> derives (Star c # r) (Suc p) u m \<Longrightarrow> derives (Plus c # r) p (x # u) m"
  apply simp
  apply (elim exE conjE)
  subgoal for a b by (rule exI [of _ "x # a"]) simp
  done

lemma derives_LazyStar_skip: "derives r p u m \<Longrightarrow> derives (LazyStar c # r) p u m"
  by (simp, rule exI [of _ "[]"]) simp

lemma derives_LazyStar_cons:
  "inClass c x \<Longrightarrow> derives (LazyStar c # r) (Suc p) u m
     \<Longrightarrow> derives (LazyStar c # r) p (x # u) m"
  apply simp
  apply (elim exE conjE)
  subgoal for a b by (rule exI [of _ "x # a"]) simp
  done

lemma derives_LazyPlus_cons:
  "inClass c x \<Longrightarrow> derives (LazyStar c # r) (Suc p) u m
     \<Longrightarrow> derives (LazyPlus c # r) p (x # u) m"
  apply simp
  apply (elim exE conjE)
  subgoal for a b by (rule exI [of _ "x # a"]) simp
  done

lemmas derives_rep = derives.simps(6-9)

declare derives.simps(6-9) [simp del]

text \<open>Whatever the search returns is a split of a prefix of the input along the pattern.\<close>

lemma rmatch_sound:
  "rmatch r p s = Some m \<Longrightarrow> \<exists>u v. s = u @ v \<and> derives r p u m"
proof (induction r p s arbitrary: m rule: rmatch.induct)
  case (1 p s)
  then show ?case by simp
next
  case (2 r p s)
  from "2.prems" have p0: "p = 0" and "rmatch r p s = Some m" by (simp_all split: if_splits)
  with "2.IH" obtain u v where "s = u @ v" "derives r p u m" by blast
  with p0 show ?case by auto
next
  case (3 r p s)
  from "3.prems" obtain m' where m: "m = p # m'" and "rmatch r p s = Some m'" by auto
  with "3.IH" obtain u v where "s = u @ v" "derives r p u m'" by blast
  with m show ?case by auto
next
  case (4 r p s)
  from "4.prems" obtain m' where m: "m = p # m'" and "rmatch r p s = Some m'" by auto
  with "4.IH" obtain u v where "s = u @ v" "derives r p u m'" by blast
  with m show ?case by auto
next
  case (5 c r p)
  then show ?case by simp
next
  case (6 c r p x xs)
  from "6.prems" have c: "inClass c x" and "rmatch r (Suc p) xs = Some m"
    by (simp_all split: if_splits)
  with "6.IH" obtain u v where "xs = u @ v" "derives r (Suc p) u m" by blast
  then have "x # xs = (x # u) @ v" and "derives (One c # r) p (x # u) m"
    using c by simp_all
  then show ?case by (intro exI conjI)
next
  case (7 c r p)
  from "7.prems" have "rmatch r p [] = Some m" by simp
  with "7.IH" obtain u v where "[] = u @ v" "derives r p u m" by blast
  then have "[] = u @ v" and "derives (Star c # r) p u m"
    by (simp_all add: derives_Star_skip)
  then show ?case by (intro exI conjI)
next
  case (8 c r p x xs)
  show ?case
  proof (cases "inClass c x")
    case True
    show ?thesis
    proof (cases "rmatch (Star c # r) (Suc p) xs")
      case (Some m')
      with True "8.prems" have "m' = m" by simp
      with "8.IH"(1) [OF True] Some obtain u v
        where "xs = u @ v" "derives (Star c # r) (Suc p) u m" by blast
      then have "x # xs = (x # u) @ v \<and> derives (Star c # r) p (x # u) m"
        using True derives_Star_cons by simp
      then show ?thesis by blast
    next
      case None
      with True "8.prems" have "rmatch r p (x # xs) = Some m" by simp
      with "8.IH"(2) [OF True None] obtain u v where "x # xs = u @ v" "derives r p u m"
        by blast
      then show ?thesis using derives_Star_skip by blast
    qed
  next
    case False
    with "8.prems" have "rmatch r p (x # xs) = Some m" by simp
    with "8.IH"(3) [OF False] obtain u v where "x # xs = u @ v" "derives r p u m"
      by blast
    then show ?thesis using derives_Star_skip by blast
  qed
next
  case (9 c r p)
  then show ?case by simp
next
  case (10 c r p x xs)
  from "10.prems" have c: "inClass c x" and "rmatch (Star c # r) (Suc p) xs = Some m"
    by (simp_all split: if_splits)
  with "10.IH" obtain u v where "xs = u @ v" "derives (Star c # r) (Suc p) u m" by blast
  then have "x # xs = (x # u) @ v" and "derives (Plus c # r) p (x # u) m"
    using c by (simp_all add: derives_Plus_cons)
  then show ?case by (intro exI conjI)
next
  case (11 c r p)
  from "11.prems" have "rmatch r p [] = Some m" by simp
  with "11.IH" obtain u v where "[] = u @ v" "derives r p u m" by blast
  then have "[] = u @ v" and "derives (LazyStar c # r) p u m"
    by (simp_all add: derives_LazyStar_skip)
  then show ?case by (intro exI conjI)
next
  case (12 c r p x xs)
  show ?case
  proof (cases "rmatch r p (x # xs)")
    case (Some m')
    with "12.prems" have "m' = m" by simp
    with "12.IH"(1) Some obtain u v where "x # xs = u @ v" "derives r p u m" by blast
    then show ?thesis using derives_LazyStar_skip by blast
  next
    case None
    with "12.prems" have c: "inClass c x"
      and "rmatch (LazyStar c # r) (Suc p) xs = Some m"
      by (simp_all split: if_splits)
    with "12.IH"(2) [OF None] obtain u v
      where "xs = u @ v" "derives (LazyStar c # r) (Suc p) u m" by blast
    then have "x # xs = (x # u) @ v \<and> derives (LazyStar c # r) p (x # u) m"
      using c derives_LazyStar_cons by simp
    then show ?thesis by blast
  qed
next
  case (13 c r p)
  then show ?case by simp
next
  case (14 c r p x xs)
  from "14.prems" have c: "inClass c x"
    and "rmatch (LazyStar c # r) (Suc p) xs = Some m"
    by (simp_all split: if_splits)
  with "14.IH" obtain u v where "xs = u @ v" "derives (LazyStar c # r) (Suc p) u m" by blast
  then have "x # xs = (x # u) @ v" and "derives (LazyPlus c # r) p (x # u) m"
    using c by (simp_all add: derives_LazyPlus_cons)
  then show ?case by (intro exI conjI)
qed


lemma Star_complete:
  "list_all (inClass c) a \<Longrightarrow> rmatch r (p + length a) w \<noteq> None
     \<Longrightarrow> rmatch (Star c # r) p (a @ w) \<noteq> None"
proof (induction a arbitrary: p)
  case Nil
  then show ?case by (cases w) (auto split: option.splits)
next
  case (Cons x a)
  then have "rmatch (Star c # r) (Suc p) (a @ w) \<noteq> None" by simp
  with Cons.prems show ?case by auto
qed

lemma LazyStar_complete:
  "list_all (inClass c) a \<Longrightarrow> rmatch r (p + length a) w \<noteq> None
     \<Longrightarrow> rmatch (LazyStar c # r) p (a @ w) \<noteq> None"
proof (induction a arbitrary: p)
  case Nil
  then show ?case by (cases w) (auto split: option.splits)
next
  case (Cons x a)
  then have "rmatch (LazyStar c # r) (Suc p) (a @ w) \<noteq> None" by simp
  with Cons.prems show ?case by (auto split: option.splits)
qed

lemma rmatch_complete:
  "derives r p u m \<Longrightarrow> rmatch r p (u @ v) \<noteq> None"
proof (induction r arbitrary: p u m)
  case Nil
  then show ?case by simp
next
  case (Cons i r)
  show ?case
  proof (cases i)
    case Bol
    with Cons show ?thesis by auto
  next
    case GroupOpen
    with Cons show ?thesis by auto
  next
    case GroupClose
    with Cons show ?thesis by auto
  next
    case (One c)
    with Cons show ?thesis by auto
  next
    case (Star c)
    with Cons.prems obtain a b where u: "u = a @ b" and a: "list_all (inClass c) a"
      and d: "derives r (p + length a) b m" by (auto simp: derives_rep)
    from Cons.IH [OF d] have "rmatch r (p + length a) (b @ v) \<noteq> None" .
    from Star_complete [OF a this] show ?thesis by (simp add: u Star)
  next
    case (Plus c)
    with Cons.prems obtain a b where u: "u = a @ b" and a: "list_all (inClass c) a"
      and ne: "a \<noteq> []" and d: "derives r (p + length a) b m" by (auto simp: derives_rep)
    from ne obtain x a' where a': "a = x # a'" by (cases a) auto
    from Cons.IH [OF d] have "rmatch r (Suc p + length a') (b @ v) \<noteq> None" by (simp add: a')
    moreover have "list_all (inClass c) a'" using a a' by simp
    ultimately have "rmatch (Star c # r) (Suc p) (a' @ b @ v) \<noteq> None"
      by (rule Star_complete [rotated])
    then show ?thesis using a by (simp add: u Plus a')
  next
    case (LazyStar c)
    with Cons.prems obtain a b where u: "u = a @ b" and a: "list_all (inClass c) a"
      and d: "derives r (p + length a) b m" by (auto simp: derives_rep)
    from Cons.IH [OF d] have "rmatch r (p + length a) (b @ v) \<noteq> None" .
    from LazyStar_complete [OF a this] show ?thesis by (simp add: u LazyStar)
  next
    case (LazyPlus c)
    with Cons.prems obtain a b where u: "u = a @ b" and a: "list_all (inClass c) a"
      and ne: "a \<noteq> []" and d: "derives r (p + length a) b m" by (auto simp: derives_rep)
    from ne obtain x a' where a': "a = x # a'" by (cases a) auto
    from Cons.IH [OF d] have "rmatch r (Suc p + length a') (b @ v) \<noteq> None" by (simp add: a')
    moreover have "list_all (inClass c) a'" using a a' by simp
    ultimately have "rmatch (LazyStar c # r) (Suc p) (a' @ b @ v) \<noteq> None"
      by (rule LazyStar_complete [rotated])
    then show ?thesis using a by (simp add: u LazyPlus a')
  qed
qed

lemma findFrom_Bol_pos: "0 < p \<Longrightarrow> findFrom (Bol # r) p s = None"
  by (induction s arbitrary: p) auto

lemma findFrom_Bol: "findFrom (Bol # r) 0 s = map_option (Pair 0) (rmatch r 0 s)"
  by (cases s) (auto simp: findFrom_Bol_pos split: option.splits)

lemma derives_last: "derives r p u m \<Longrightarrow> m \<noteq> [] \<and> last m = p + length u"
proof (induction r arbitrary: p u m)
  case Nil
  then show ?case by simp
next
  case (Cons i r)
  then show ?case by (cases i) (fastforce simp: derives_rep)+
qed

lemma MatchString_Bol:
  "MatchString (Bol # r) s \<longleftrightarrow> (\<exists>u v m. s = u @ v \<and> derives r 0 u m)"
proof
  assume "MatchString (Bol # r) s"
  then obtain m where "rmatch r 0 s = Some m"
    by (auto simp: MatchString_def findFrom_Bol)
  from rmatch_sound [OF this] show "\<exists>u v m. s = u @ v \<and> derives r 0 u m" by blast
next
  assume "\<exists>u v m. s = u @ v \<and> derives r 0 u m"
  then obtain u v m where s: "s = u @ v" and d: "derives r 0 u m" by blast
  from rmatch_complete [OF d] show "MatchString (Bol # r) s"
    by (simp add: MatchString_def findFrom_Bol s)
qed

lemma FindStringSubmatch_Bol:
  "FindStringSubmatch (Bol # r) s = Some ms \<longleftrightarrow>
     (\<exists>m. rmatch r 0 s = Some m \<and> ms = substr s 0 (last m) # groups s m)"
  by (auto simp: FindStringSubmatch_def findFrom_Bol split: option.splits)


subsection \<open>The shape of the lines the three patterns accept\<close>

lemma chainNameRe_shape:
  assumes "FindStringSubmatch chainNameRe line = Some ms"
  shows "\<exists>ws name rest.
     line = ''Chain'' @ ws @ name @ rest \<and> ms = [''Chain'' @ ws @ name, name] \<and>
     ws \<noteq> [] \<and> list_all isSpace ws \<and> name \<noteq> [] \<and> list_all (\<lambda>c. \<not> isSpace c) name"
proof -
  from assms obtain m where r: "rmatch (tl chainNameRe) 0 line = Some m"
    and ms: "ms = substr line 0 (last m) # groups line m"
    by (auto simp: chainNameRe_def FindStringSubmatch_Bol)
  from rmatch_sound [OF r] obtain u v where l: "line = u @ v" and d: "derives (tl chainNameRe) 0 u m"
    by blast
  from d show ?thesis
    apply (simp add: chainNameRe_def derives_rep)
    apply (elim exE conjE)
    apply (simp add: ms l substr_def inClass_eta)
    done
qed

lemma valuesRe_derives:
  assumes "derives (tl valuesRe) 0 u m"
  shows "\<exists>ws0 d1 ws1 d2 ws2 w mid ws3 cm ws4 ws5.
     u = ws0 @ d1 @ ws1 @ d2 @ ws2 @ w @ mid @ ''/*'' @ ws3 @ cm @ ws4 @ ''*/'' @ ws5 \<and>
     m = [length ws0, length (ws0 @ d1),
          length (ws0 @ d1 @ ws1), length (ws0 @ d1 @ ws1 @ d2),
          length (ws0 @ d1 @ ws1 @ d2 @ ws2), length (ws0 @ d1 @ ws1 @ d2 @ ws2 @ w),
          length (ws0 @ d1 @ ws1 @ d2 @ ws2 @ w @ mid @ ''/*'' @ ws3),
          length (ws0 @ d1 @ ws1 @ d2 @ ws2 @ w @ mid @ ''/*'' @ ws3 @ cm),
          length u] \<and>
     list_all isSpace ws0 \<and> d1 \<noteq> [] \<and> list_all isDigit d1 \<and>
     ws1 \<noteq> [] \<and> list_all isSpace ws1 \<and> d2 \<noteq> [] \<and> list_all isDigit d2 \<and>
     ws2 \<noteq> [] \<and> list_all isSpace ws2 \<and> w \<noteq> [] \<and> list_all isWord w \<and>
     list_all isSpace ws3 \<and> cm \<noteq> [] \<and> list_all isSpace ws4 \<and> list_all isSpace ws5"
  using assms
  apply (clarsimp simp: valuesRe_def derives_rep inClass_eta)
  apply (intro exI conjI)
  apply (rule refl)
  apply simp_all
  done


lemma substr_mid: "s = pre @ ch @ post \<Longrightarrow> substr s (length pre) (length (pre @ ch)) = ch"
  by (simp add: substr_def)

lemma substr_prefix: "substr (u @ v) 0 (length u) = u"
  by (simp add: substr_def)

lemma valuesRe_shape:
  assumes "FindStringSubmatch valuesRe line = Some ms"
  shows "\<exists>ws0 d1 ws1 d2 ws2 w mid ws3 cm ws4 ws5 rest.
     line = ws0 @ d1 @ ws1 @ d2 @ ws2 @ w @ mid @ ''/*'' @ ws3 @ cm @ ws4 @ ''*/'' @ ws5 @ rest \<and>
     ms = [ws0 @ d1 @ ws1 @ d2 @ ws2 @ w @ mid @ ''/*'' @ ws3 @ cm @ ws4 @ ''*/'' @ ws5,
           d1, d2, w, cm] \<and>
     list_all isSpace ws0 \<and> d1 \<noteq> [] \<and> list_all isDigit d1 \<and>
     ws1 \<noteq> [] \<and> list_all isSpace ws1 \<and> d2 \<noteq> [] \<and> list_all isDigit d2 \<and>
     ws2 \<noteq> [] \<and> list_all isSpace ws2 \<and> w \<noteq> [] \<and> list_all isWord w \<and>
     list_all isSpace ws3 \<and> cm \<noteq> [] \<and> list_all isSpace ws4 \<and> list_all isSpace ws5"
proof -
  from assms obtain m where r: "rmatch (tl valuesRe) 0 line = Some m"
    and ms: "ms = substr line 0 (last m) # groups line m"
    by (auto simp: valuesRe_def FindStringSubmatch_Bol)
  from rmatch_sound [OF r] obtain u v where l: "line = u @ v" and d: "derives (tl valuesRe) 0 u m"
    by blast
  from valuesRe_derives [OF d] obtain ws0 d1 ws1 d2 ws2 w mid ws3 cm ws4 ws5 where
    u: "u = ws0 @ d1 @ ws1 @ d2 @ ws2 @ w @ mid @ ''/*'' @ ws3 @ cm @ ws4 @ ''*/'' @ ws5"
    and m: "m = [length ws0, length (ws0 @ d1),
          length (ws0 @ d1 @ ws1), length (ws0 @ d1 @ ws1 @ d2),
          length (ws0 @ d1 @ ws1 @ d2 @ ws2), length (ws0 @ d1 @ ws1 @ d2 @ ws2 @ w),
          length (ws0 @ d1 @ ws1 @ d2 @ ws2 @ w @ mid @ ''/*'' @ ws3),
          length (ws0 @ d1 @ ws1 @ d2 @ ws2 @ w @ mid @ ''/*'' @ ws3 @ cm),
          length u]"
    and props: "list_all isSpace ws0 \<and> d1 \<noteq> [] \<and> list_all isDigit d1 \<and>
     ws1 \<noteq> [] \<and> list_all isSpace ws1 \<and> d2 \<noteq> [] \<and> list_all isDigit d2 \<and>
     ws2 \<noteq> [] \<and> list_all isSpace ws2 \<and> w \<noteq> [] \<and> list_all isWord w \<and>
     list_all isSpace ws3 \<and> cm \<noteq> [] \<and> list_all isSpace ws4 \<and> list_all isSpace ws5"
    by blast
  have l': "line = ws0 @ d1 @ ws1 @ d2 @ ws2 @ w @ mid @ ''/*'' @ ws3 @ cm @ ws4 @ ''*/'' @ ws5 @ v"
    by (simp add: l u)
  have g0: "substr line 0 (last m) = u"
    by (simp add: m l substr_def)
  have "groups line m = [d1, d2, w, cm]"
    by (simp add: m substr_def l')
  with g0 have "ms = [u, d1, d2, w, cm]"
    by (simp add: ms)
  with l' props u show ?thesis by blast
qed


lemma valuesRe_complete:
  assumes "list_all isSpace ws0" "d1 \<noteq> []" "list_all isDigit d1"
    "ws1 \<noteq> []" "list_all isSpace ws1" "d2 \<noteq> []" "list_all isDigit d2"
    "ws2 \<noteq> []" "list_all isSpace ws2" "w \<noteq> []" "list_all isWord w"
    "list_all (\<lambda>c. c \<noteq> CHR 0x0A) mid"
    "list_all isSpace ws3" "cm \<noteq> []" "list_all (\<lambda>c. c \<noteq> CHR 0x0A) cm"
    "list_all isSpace ws4" "list_all isSpace ws5"
  shows "MatchString valuesRe
     (ws0 @ d1 @ ws1 @ d2 @ ws2 @ w @ mid @ ''/*'' @ ws3 @ cm @ ws4 @ ''*/'' @ ws5 @ rest)"
proof -
  have "\<exists>m. derives (tl valuesRe) 0
      (ws0 @ d1 @ ws1 @ d2 @ ws2 @ w @ mid @ ''/*'' @ ws3 @ cm @ ws4 @ ''*/'' @ ws5) m"
    apply (simp add: valuesRe_def derives_rep inClass_eta)
    apply (intro exI conjI)
    apply (rule refl | rule assms)+
    done
  then obtain m where "derives (tl valuesRe) 0
      (ws0 @ d1 @ ws1 @ d2 @ ws2 @ w @ mid @ ''/*'' @ ws3 @ cm @ ws4 @ ''*/'' @ ws5) m" ..
  then have "\<exists>u v m. ws0 @ d1 @ ws1 @ d2 @ ws2 @ w @ mid @ ''/*'' @ ws3 @ cm @ ws4 @ ''*/'' @ ws5 @ rest = u @ v
     \<and> derives (tl valuesRe) 0 u m"
    by (intro exI [of _ "ws0 @ d1 @ ws1 @ d2 @ ws2 @ w @ mid @ ''/*'' @ ws3 @ cm @ ws4 @ ''*/'' @ ws5"]
          exI [of _ rest] exI [of _ m]) simp
  then show ?thesis
    using MatchString_Bol [of "tl valuesRe"] by (simp add: valuesRe_def)
qed


lemma MatchString_iff: "MatchString r s \<longleftrightarrow> FindStringSubmatch r s \<noteq> None"
  by (auto simp: MatchString_def FindStringSubmatch_def split: option.splits)

lemma chainNameRe_matches_iff:
  "MatchString chainNameRe line \<longleftrightarrow>
     (\<exists>ws name rest. line = ''Chain'' @ ws @ name @ rest \<and>
        ws \<noteq> [] \<and> list_all isSpace ws \<and> name \<noteq> [] \<and> list_all (\<lambda>c. \<not> isSpace c) name)"
proof
  assume "MatchString chainNameRe line"
  then obtain ms where "FindStringSubmatch chainNameRe line = Some ms"
    by (auto simp: MatchString_iff)
  from chainNameRe_shape [OF this] show "\<exists>ws name rest. line = ''Chain'' @ ws @ name @ rest \<and>
        ws \<noteq> [] \<and> list_all isSpace ws \<and> name \<noteq> [] \<and> list_all (\<lambda>c. \<not> isSpace c) name"
    by blast
next
  assume "\<exists>ws name rest. line = ''Chain'' @ ws @ name @ rest \<and>
        ws \<noteq> [] \<and> list_all isSpace ws \<and> name \<noteq> [] \<and> list_all (\<lambda>c. \<not> isSpace c) name"
  then obtain ws name rest where l: "line = ''Chain'' @ ws @ name @ rest"
    and p: "ws \<noteq> []" "list_all isSpace ws" "name \<noteq> []" "list_all (\<lambda>c. \<not> isSpace c) name"
    by blast
  have "\<exists>m. derives (tl chainNameRe) 0 (''Chain'' @ ws @ name) m"
    apply (simp add: chainNameRe_def derives_rep inClass_eta)
    apply (intro exI conjI)
    apply (rule refl | rule p)+
    done
  then obtain m where "derives (tl chainNameRe) 0 (''Chain'' @ ws @ name) m" ..
  then have "\<exists>u v m. line = u @ v \<and> derives (tl chainNameRe) 0 u m"
    by (intro exI [of _ "''Chain'' @ ws @ name"] exI [of _ rest] exI [of _ m]) (simp add: l)
  then show "MatchString chainNameRe line"
    using MatchString_Bol [of "tl chainNameRe"] by (simp add: chainNameRe_def)
qed

lemma fieldsHeaderRe_matches_iff:
  "MatchString fieldsHeaderRe line \<longleftrightarrow>
     (\<exists>ws0 ws1 ws2 rest. line = ws0 @ ''pkts'' @ ws1 @ ''bytes'' @ ws2 @ ''target'' @ rest \<and>
        list_all isSpace ws0 \<and> ws1 \<noteq> [] \<and> list_all isSpace ws1 \<and>
        ws2 \<noteq> [] \<and> list_all isSpace ws2)"
proof
  assume "MatchString fieldsHeaderRe line"
  then obtain u v m where l: "line = u @ v" and d: "derives (tl fieldsHeaderRe) 0 u m"
    using MatchString_Bol [of "tl fieldsHeaderRe"] by (auto simp: fieldsHeaderRe_def)
  from d have "\<exists>ws0 ws1 ws2. u = ws0 @ ''pkts'' @ ws1 @ ''bytes'' @ ws2 @ ''target'' \<and>
        list_all isSpace ws0 \<and> ws1 \<noteq> [] \<and> list_all isSpace ws1 \<and>
        ws2 \<noteq> [] \<and> list_all isSpace ws2"
    apply (clarsimp simp: fieldsHeaderRe_def derives_rep inClass_eta)
    apply (intro exI conjI)
    apply (rule refl)
    apply simp_all
    done
  then obtain ws0 ws1 ws2 where u: "u = ws0 @ ''pkts'' @ ws1 @ ''bytes'' @ ws2 @ ''target''"
    and p: "list_all isSpace ws0 \<and> ws1 \<noteq> [] \<and> list_all isSpace ws1 \<and>
        ws2 \<noteq> [] \<and> list_all isSpace ws2"
    by blast
  have "line = ws0 @ ''pkts'' @ ws1 @ ''bytes'' @ ws2 @ ''target'' @ v"
    by (simp add: l u)
  with p show "\<exists>ws0 ws1 ws2 rest. line = ws0 @ ''pkts'' @ ws1 @ ''bytes'' @ ws2 @ ''target'' @ rest \<and>
        list_all isSpace ws0 \<and> ws1 \<noteq> [] \<and> list_all isSpace ws1 \<and>
        ws2 \<noteq> [] \<and> list_all isSpace ws2"
    by (intro exI conjI) (assumption | simp)+
next
  assume "\<exists>ws0 ws1 ws2 rest. line = ws0 @ ''pkts'' @ ws1 @ ''bytes'' @ ws2 @ ''target'' @ rest \<and>
        list_all isSpace ws0 \<and> ws1 \<noteq> [] \<and> list_all isSpace ws1 \<and>
        ws2 \<noteq> [] \<and> list_all isSpace ws2"
  then obtain ws0 ws1 ws2 rest
    where l: "line = ws0 @ ''pkts'' @ ws1 @ ''bytes'' @ ws2 @ ''target'' @ rest"
    and p: "list_all isSpace ws0" "ws1 \<noteq> []" "list_all isSpace ws1"
      "ws2 \<noteq> []" "list_all isSpace ws2"
    by blast
  have "\<exists>m. derives (tl fieldsHeaderRe) 0 (ws0 @ ''pkts'' @ ws1 @ ''bytes'' @ ws2 @ ''target'') m"
    apply (simp add: fieldsHeaderRe_def derives_rep inClass_eta)
    apply (intro exI conjI)
    apply (rule refl | rule p)+
    done
  then obtain m
    where "derives (tl fieldsHeaderRe) 0 (ws0 @ ''pkts'' @ ws1 @ ''bytes'' @ ws2 @ ''target'') m" ..
  then have "\<exists>u v m. line = u @ v \<and> derives (tl fieldsHeaderRe) 0 u m"
    by (intro exI [of _ "ws0 @ ''pkts'' @ ws1 @ ''bytes'' @ ws2 @ ''target''"]
          exI [of _ rest] exI [of _ m]) (simp add: l)
  then show "MatchString fieldsHeaderRe line"
    using MatchString_Bol [of "tl fieldsHeaderRe"] by (simp add: fieldsHeaderRe_def)
qed

subsection \<open>Parsing the counters\<close>

lemma foldl_decimal_ge: "n \<le> foldl (\<lambda>n c. n * 10 + digitVal c) n s"
proof (induction s arbitrary: n)
  case Nil
  then show ?case by simp
next
  case (Cons c s)
  have "n \<le> n * 10 + digitVal c" by simp
  also have "\<dots> \<le> foldl (\<lambda>n c. n * 10 + digitVal c) (n * 10 + digitVal c) s"
    by (rule Cons.IH)
  finally show ?case by simp
qed

lemma cutoff_overflow: "cutoff \<le> n \<Longrightarrow> maxUint64 < n * 10 + d"
  by (simp add: cutoff_def maxUint64_def)

lemma parseDigits_spec:
  "n \<le> maxUint64 \<Longrightarrow>
   parseDigits n s = Inr v \<longleftrightarrow>
     list_all isDigit s \<and> foldl (\<lambda>n c. n * 10 + digitVal c) n s \<le> maxUint64
       \<and> v = foldl (\<lambda>n c. n * 10 + digitVal c) n s"
proof (induction s arbitrary: n)
  case Nil
  then show ?case by auto
next
  case (Cons c s)
  let ?n' = "n * 10 + digitVal c"
  show ?case
  proof (cases "isDigit c \<and> \<not> cutoff \<le> n \<and> \<not> maxUint64 < ?n'")
    case True
    then have "?n' \<le> maxUint64" by simp
    from Cons.IH [OF this] True show ?thesis by simp
  next
    case False
    have "?n' \<le> foldl (\<lambda>n c. n * 10 + digitVal c) ?n' s" by (rule foldl_decimal_ge)
    with False cutoff_overflow [of n "digitVal c"] show ?thesis by auto
  qed
qed

lemma ParseUint_spec:
  "ParseUint s = Inr v \<longleftrightarrow>
     s \<noteq> [] \<and> list_all isDigit s \<and> decimal s < 2 ^ 64 \<and> v = of_nat (decimal s)"
proof -
  have A: "\<And>n. parseDigits 0 s = Inr n \<longleftrightarrow>
      list_all isDigit s \<and> decimal s \<le> maxUint64 \<and> n = decimal s"
    by (simp add: parseDigits_spec decimal_def)
  have B: "decimal s \<le> maxUint64 \<longleftrightarrow> decimal s < 2 ^ 64"
    by (simp add: maxUint64_def) arith
  show ?thesis
  proof (cases "parseDigits 0 s")
    case (Inl e)
    with A [of "decimal s"] B show ?thesis by (auto simp: ParseUint_def)
  next
    case (Inr n)
    with A [of n] B show ?thesis by (auto simp: ParseUint_def)
  qed
qed

lemma ParseUint_unat: "ParseUint s = Inr v \<Longrightarrow> unat v = decimal s"
  by (simp add: ParseUint_spec unat_of_nat take_bit_nat_eq_self)

lemma ParseUint_digits_error:
  assumes "s \<noteq> []" and "list_all isDigit s"
  shows "(\<exists>e. ParseUint s = Inl e) \<longleftrightarrow> 2 ^ 64 \<le> decimal s"
proof (cases "decimal s < 2 ^ 64")
  case True
  with assms have "ParseUint s = Inr (of_nat (decimal s))" by (simp add: ParseUint_spec)
  with True show ?thesis by simp
next
  case False
  then have "\<And>v. ParseUint s \<noteq> Inr v" by (simp add: ParseUint_spec)
  with False show ?thesis by (cases "ParseUint s") auto
qed


subsection \<open>The loop over the rule lines and over the chains\<close>

lemma rmatch_length: "rmatch r p s = Some m \<Longrightarrow> length m = Suc (nbrackets r)"
  by (induction r p s arbitrary: m rule: rmatch.induct) (auto split: if_splits option.splits)

lemma findFrom_length: "findFrom r p s = Some (st, m) \<Longrightarrow> length m = Suc (nbrackets r)"
  by (induction r p s rule: findFrom.induct) (auto split: option.splits dest: rmatch_length)

lemma groups_length: "length (groups s m) = length m div 2"
  by (induction s m rule: groups.induct) auto

lemma FindStringSubmatch_length:
  "FindStringSubmatch r s = Some m \<Longrightarrow> length m = Suc (Suc (nbrackets r) div 2)"
  by (auto simp: FindStringSubmatch_def groups_length split: option.splits dest: findFrom_length)

lemma valuesRe_length: "FindStringSubmatch valuesRe s = Some m \<Longrightarrow> length m = 5"
  by (drule FindStringSubmatch_length) (simp add: valuesRe_def)

lemma chainNameRe_length: "FindStringSubmatch chainNameRe s = Some m \<Longrightarrow> length m = 2"
  by (drule FindStringSubmatch_length) (simp add: chainNameRe_def)

lemma gatherLines_eq:
  "gatherLines table chain ls acc = acc @ concat (map (spec_ruleCalls table chain) ls)"
  by (induction ls arbitrary: acc)
     (auto simp: spec_ruleCalls_def measurement_def Let_def split: option.splits sum.splits dest: valuesRe_length)

lemma splitLines_nonempty: "splitLines s \<noteq> []"
  by (induction s) (auto split: list.splits)

lemma splitLines_length: "length (splitLines s) = Suc (count_list s (CHR 0x0A))"
  using splitLines_nonempty by (induction s) (auto split: list.splits)

lemma parseAndGather_acc:
  "parseAndGather ipt data acc =
     (fst (parseAndGather ipt data []), acc @ snd (parseAndGather ipt data []))"
  by (simp add: parseAndGather_def Let_def gatherLines_eq split: option.splits)

lemma gatherChains_eq:
  "gatherChains ipt cs (acc, listed) =
     (acc @ concat (map (spec_chainCalls ipt) cs), listed @ map (Pair (Table ipt)) cs)"
proof (induction cs arbitrary: acc listed)
  case Nil
  then show ?case by simp
next
  case (Cons c cs)
  obtain data e where l: "lister ipt (Table ipt) c = (data, e)" by (cases "lister ipt (Table ipt) c")
  obtain pe calls where p: "parseAndGather ipt data [] = (pe, calls)"
    by (cases "parseAndGather ipt data []")
  have p': "parseAndGather ipt data acc = (pe, acc @ calls)"
    using parseAndGather_acc [of ipt data acc] p by simp
  show ?case
    by (cases e; cases pe) (simp_all add: l p p' spec_chainCalls_def Cons.IH)
qed


lemma in_set_singletonD: "c \<in> set [x] \<Longrightarrow> c = x"
  by simp

lemma spec_ruleCalls_metric:
  assumes "c \<in> set (spec_ruleCalls table chain line)"
  shows "\<exists>ws0 d1 ws1 d2 ws2 w mid ws3 cm ws4 ws5 rest.
     line = ws0 @ d1 @ ws1 @ d2 @ ws2 @ w @ mid @ ''/*'' @ ws3 @ cm @ ws4 @ ''*/'' @ ws5 @ rest \<and>
     list_all isSpace ws0 \<and> d1 \<noteq> [] \<and> list_all isDigit d1 \<and>
     ws1 \<noteq> [] \<and> list_all isSpace ws1 \<and> d2 \<noteq> [] \<and> list_all isDigit d2 \<and>
     ws2 \<noteq> [] \<and> list_all isSpace ws2 \<and> w \<noteq> [] \<and> list_all isWord w \<and>
     list_all isSpace ws3 \<and> cm \<noteq> [] \<and> list_all isSpace ws4 \<and> list_all isSpace ws5 \<and>
     decimal d1 < 2 ^ 64 \<and> decimal d2 < 2 ^ 64 \<and>
     c = AddFields ''iptables''
           [''pkts'' \<mapsto> VUint64 (of_nat (decimal d1)), ''bytes'' \<mapsto> VUint64 (of_nat (decimal d2))]
           [''table'' \<mapsto> table, ''chain'' \<mapsto> chain, ''target'' \<mapsto> w, ''ruleid'' \<mapsto> cm]"
proof -
  from assms obtain ms where ms: "FindStringSubmatch valuesRe line = Some ms"
    by (cases "FindStringSubmatch valuesRe line") (simp_all add: spec_ruleCalls_def)
  from assms ms obtain p where p: "ParseUint (ms ! 1) = Inr p"
    by (cases "ParseUint (ms ! 1)") (simp_all add: spec_ruleCalls_def)
  from assms ms p obtain b where b: "ParseUint (ms ! 2) = Inr b"
    by (cases "ParseUint (ms ! 2)") (simp_all add: spec_ruleCalls_def)
  from assms
  have "c \<in> set [AddFields ''iptables'' [''pkts'' \<mapsto> VUint64 p, ''bytes'' \<mapsto> VUint64 b]
           [''table'' \<mapsto> table, ''chain'' \<mapsto> chain, ''target'' \<mapsto> ms ! 3, ''ruleid'' \<mapsto> ms ! 4]]"
    by (simp only: spec_ruleCalls_def ms p b option.case sum.case)
  then have c: "c = AddFields ''iptables'' [''pkts'' \<mapsto> VUint64 p, ''bytes'' \<mapsto> VUint64 b]
           [''table'' \<mapsto> table, ''chain'' \<mapsto> chain, ''target'' \<mapsto> ms ! 3, ''ruleid'' \<mapsto> ms ! 4]"
    by (rule in_set_singletonD)
  from valuesRe_shape [OF ms] obtain ws0 d1 ws1 d2 ws2 w mid ws3 cm ws4 ws5 rest where
    l: "line = ws0 @ d1 @ ws1 @ d2 @ ws2 @ w @ mid @ ''/*'' @ ws3 @ cm @ ws4 @ ''*/'' @ ws5 @ rest"
    and m: "ms = [ws0 @ d1 @ ws1 @ d2 @ ws2 @ w @ mid @ ''/*'' @ ws3 @ cm @ ws4 @ ''*/'' @ ws5,
           d1, d2, w, cm]"
    and props: "list_all isSpace ws0 \<and> d1 \<noteq> [] \<and> list_all isDigit d1 \<and>
     ws1 \<noteq> [] \<and> list_all isSpace ws1 \<and> d2 \<noteq> [] \<and> list_all isDigit d2 \<and>
     ws2 \<noteq> [] \<and> list_all isSpace ws2 \<and> w \<noteq> [] \<and> list_all isWord w \<and>
     list_all isSpace ws3 \<and> cm \<noteq> [] \<and> list_all isSpace ws4 \<and> list_all isSpace ws5"
    by blast
  from p m have p': "decimal d1 < 2 ^ 64 \<and> p = of_nat (decimal d1)" by (simp add: ParseUint_spec)
  from b m have b': "decimal d2 < 2 ^ 64 \<and> b = of_nat (decimal d2)" by (simp add: ParseUint_spec)
  have "ms ! 3 = w" "ms ! 4 = cm" by (simp_all add: m)
  with c p' b' have "c = AddFields ''iptables''
           [''pkts'' \<mapsto> VUint64 (of_nat (decimal d1)), ''bytes'' \<mapsto> VUint64 (of_nat (decimal d2))]
           [''table'' \<mapsto> table, ''chain'' \<mapsto> chain, ''target'' \<mapsto> w, ''ruleid'' \<mapsto> cm]"
    by (simp only:)
  with l props p' b' show ?thesis by blast
qed

subsection \<open>Evaluation of the example listing\<close>

lemmas re_eval = FindStringSubmatch_def MatchString_def substr_def isSpace_def isDigit_def
  isWord_def ParseUint_def cutoff_def maxUint64_def digitVal_def

lemma example_lines:
  "splitLines example_listing =
     [''Chain INPUT (policy DROP)'', '' pkts bytes target'', '' 57 4520 RETURN tcp /* foobar */'',
      ''junk'', '' 1 99999999999999999999 A /* b */'']"
  by (simp add: example_listing_def)

lemma example_chain_line:
  "FindStringSubmatch chainNameRe ''Chain INPUT (policy DROP)'' = Some [''Chain INPUT'', ''INPUT'']"
  by (simp add: re_eval chainNameRe_def)

lemma example_header_line: "MatchString fieldsHeaderRe '' pkts bytes target''"
  by (simp add: re_eval fieldsHeaderRe_def)

lemma example_rule_lines:
  "FindStringSubmatch valuesRe '' 57 4520 RETURN tcp /* foobar */'' =
     Some ['' 57 4520 RETURN tcp /* foobar */'', ''57'', ''4520'', ''RETURN'', ''foobar'']"
  "FindStringSubmatch valuesRe ''junk'' = None"
  "FindStringSubmatch valuesRe '' 1 99999999999999999999 A /* b */'' =
     Some ['' 1 99999999999999999999 A /* b */'', ''1'', ''99999999999999999999'', ''A'', ''b'']"
  by (simp_all add: re_eval valuesRe_def)

lemma example_counters:
  "ParseUint ''57'' = Inr 57"
  "ParseUint ''4520'' = Inr 4520"
  "ParseUint ''1'' = Inr 1"
  "ParseUint ''99999999999999999999'' = Inl ErrRange"
  by (simp_all add: re_eval)

lemma example_bad_listing:
  "splitLines ''Chain EMPTY\<newline>no header\<newline>'' = [''Chain EMPTY'', ''no header'', []]"
  "FindStringSubmatch chainNameRe ''Chain EMPTY'' = Some [''Chain EMPTY'', ''EMPTY'']"
  "\<not> MatchString fieldsHeaderRe ''no header''"
  by (simp_all add: re_eval chainNameRe_def fieldsHeaderRe_def)

section \<open>The claims about the iptables plugin\<close>

text \<open>
  Claim C3. For an input of at least three lines whose first line matches the chain-name
  pattern and whose second line matches the header pattern, \<open>parseAndGather\<close> returns no error
  and appends to the accumulator, in the order of the lines after the header, one
  \<^verbatim>\<open>iptables\<close> metric for each line that matches the counters pattern and whose two counters
  parse as unsigned 64-bit integers. The metric has the tags table, chain, target and ruleid
  and the fields pkts and bytes. A line that does not match, or whose counters do not parse,
  contributes nothing and raises no error.
\<close>

theorem parseAndGather_emits:
  assumes "3 \<le> length (splitLines data)"
    and "FindStringSubmatch chainNameRe (splitLines data ! 0) = Some mchain"
    and "MatchString fieldsHeaderRe (splitLines data ! 1)"
  shows "parseAndGather ipt data acc =
      (None, acc @ concat (map (spec_ruleCalls (Table ipt) (mchain ! 1))
                             (drop 2 (splitLines data))))"
  using assms by (simp add: parseAndGather_def Let_def gatherLines_eq)

theorem parseAndGather_emits_witness:
  "3 \<le> length (splitLines example_listing)
   \<and> FindStringSubmatch chainNameRe (splitLines example_listing ! 0)
       = Some [''Chain INPUT'', ''INPUT'']
   \<and> MatchString fieldsHeaderRe (splitLines example_listing ! 1)
   \<and> parseAndGather example_iptables example_listing [] =
       (None, [AddFields ''iptables'' [''pkts'' \<mapsto> VUint64 57, ''bytes'' \<mapsto> VUint64 4520]
                 [''table'' \<mapsto> ''filter'', ''chain'' \<mapsto> ''INPUT'',
                  ''target'' \<mapsto> ''RETURN'', ''ruleid'' \<mapsto> ''foobar'']])"
proof -
  have h1: "3 \<le> length (splitLines example_listing)"
    by (simp add: example_lines)
  have h2: "FindStringSubmatch chainNameRe (splitLines example_listing ! 0)
      = Some [''Chain INPUT'', ''INPUT'']"
    by (simp add: example_lines example_chain_line)
  have h3: "MatchString fieldsHeaderRe (splitLines example_listing ! 1)"
    by (simp add: example_lines example_header_line)
  show ?thesis
    using h1 h2 h3 parseAndGather_emits [OF h1 h2 h3, of example_iptables "[]"]
    by (simp add: example_lines spec_ruleCalls_def example_rule_lines example_counters
          example_iptables_def)
qed

text \<open>
  Claim C4. \<open>parseAndGather\<close> returns the parse error exactly when its input has at least
  three lines and the first line does not match the chain-name pattern or the second line
  does not match the header pattern. It returns no other error, and for an input of fewer
  than three lines it returns no error and leaves the accumulator as it was.
\<close>

theorem parseAndGather_error_iff:
  "(fst (parseAndGather ipt data acc) = Some ErrParse \<longleftrightarrow>
      3 \<le> length (splitLines data) \<and>
      (\<not> MatchString chainNameRe (splitLines data ! 0) \<or>
       \<not> MatchString fieldsHeaderRe (splitLines data ! 1)))
   \<and> (fst (parseAndGather ipt data acc) = None \<or>
       fst (parseAndGather ipt data acc) = Some ErrParse)
   \<and> (length (splitLines data) < 3 \<longrightarrow> parseAndGather ipt data acc = (None, acc))"
  by (auto simp: parseAndGather_def Let_def MatchString_iff split: option.splits)

theorem parseAndGather_error_iff_witness:
  "fst (parseAndGather example_iptables ''Chain EMPTY\<newline>no header\<newline>'' []) = Some ErrParse
   \<and> length (splitLines ''Chain EMPTY'') < 3
   \<and> parseAndGather example_iptables ''Chain EMPTY'' [] = (None, [])"
  using parseAndGather_error_iff [of example_iptables "''Chain EMPTY\<newline>no header\<newline>''" "[]"]
    parseAndGather_error_iff [of example_iptables "''Chain EMPTY''" "[]"]
  by (simp add: example_bad_listing)

text \<open>
  Claim C9. With an empty table name or an empty list of chains, \<open>Gather\<close> returns no error,
  invokes the lister for no chain and leaves the accumulator unchanged. In every other case
  it returns no error either: the lister is invoked once for every configured chain, in
  order, and each chain contributes the lister's error, or the metrics of its listing
  followed by the parse error if there is one, whatever happened to the chains before it.
\<close>

theorem Gather_returns_nil:
  "(Table ipt = [] \<or> Chains ipt = [] \<longrightarrow> Gather ipt (acc, listed) = (None, acc, listed))
   \<and> fst (Gather ipt (acc, listed)) = None
   \<and> (Table ipt \<noteq> [] \<longrightarrow>
        Gather ipt (acc, listed) =
          (None, acc @ concat (map (spec_chainCalls ipt) (Chains ipt)),
           listed @ map (Pair (Table ipt)) (Chains ipt)))"
  by (auto simp: Gather_def gatherChains_eq)

theorem Gather_returns_nil_witness:
  "Gather (example_iptables\<lparr>Table := []\<rparr>) ([], []) = (None, [], [])
   \<and> Gather example_iptables ([], []) =
       (None,
        [AddError (Some (ErrExternal ''exit status 1'')),
         AddError (Some ErrParse),
         AddFields ''iptables'' [''pkts'' \<mapsto> VUint64 57, ''bytes'' \<mapsto> VUint64 4520]
           [''table'' \<mapsto> ''filter'', ''chain'' \<mapsto> ''INPUT'',
            ''target'' \<mapsto> ''RETURN'', ''ruleid'' \<mapsto> ''foobar'']],
        [(''filter'', ''NOCHAIN''), (''filter'', ''EMPTY''), (''filter'', ''INPUT'')])"
proof -
  have e: "parseAndGather example_iptables ''Chain EMPTY\<newline>no header\<newline>'' [] = (Some ErrParse, [])"
    by (simp add: parseAndGather_def example_bad_listing)
  have i: "parseAndGather example_iptables example_listing [] =
       (None, [AddFields ''iptables'' [''pkts'' \<mapsto> VUint64 57, ''bytes'' \<mapsto> VUint64 4520]
                 [''table'' \<mapsto> ''filter'', ''chain'' \<mapsto> ''INPUT'',
                  ''target'' \<mapsto> ''RETURN'', ''ruleid'' \<mapsto> ''foobar'']])"
    by (simp add: parseAndGather_def example_lines example_chain_line example_header_line
          example_rule_lines example_counters measurement_def example_iptables_def)
  have sel: "lister example_iptables = example_lister" "Table example_iptables = ''filter''"
    "Chains example_iptables = [''NOCHAIN'', ''EMPTY'', ''INPUT'']"
    by (simp_all add: example_iptables_def)
  have c: "spec_chainCalls example_iptables ''NOCHAIN'' @ spec_chainCalls example_iptables ''EMPTY''
       @ spec_chainCalls example_iptables ''INPUT'' =
       [AddError (Some (ErrExternal ''exit status 1'')),
        AddError (Some ErrParse),
        AddFields ''iptables'' [''pkts'' \<mapsto> VUint64 57, ''bytes'' \<mapsto> VUint64 4520]
           [''table'' \<mapsto> ''filter'', ''chain'' \<mapsto> ''INPUT'',
            ''target'' \<mapsto> ''RETURN'', ''ruleid'' \<mapsto> ''foobar'']]"
    by (simp add: spec_chainCalls_def sel example_lister_def e i)
  show ?thesis
    using Gather_returns_nil [of "example_iptables\<lparr>Table := []\<rparr>" "[]" "[]"]
      Gather_returns_nil [of example_iptables "[]" "[]"]
    by (simp add: sel c)
qed

section \<open>Properties of the nginx_plus plugin\<close>

subsection \<open>The loops of the flattening, in closed form\<close>

lemma gatherZones_eq:
  "gatherZones tags zs acc =
     acc @ map (\<lambda>(name, z). AddFields ''nginx_plus_zone'' (zoneFields z) (tags(''zone'' \<mapsto> name))) zs"
  by (induction zs arbitrary: acc) (auto simp: Let_def)

lemma gatherPeers_eq:
  "gatherPeers ut ps acc =
     acc @ map (\<lambda>p. AddFields ''nginx_plus_upstream_peer'' (peerFields p) (peerTags ut p)) ps"
  by (induction ps arbitrary: acc) auto

lemma gatherUpstreams_eq:
  "gatherUpstreams tags us acc =
     acc @ concat (map (\<lambda>(name, u).
        AddFields ''nginx_plus_upstream'' (upstreamFields u) (tags(''upstream'' \<mapsto> name))
        # map (\<lambda>p. AddFields ''nginx_plus_upstream_peer'' (peerFields p)
                      (peerTags (tags(''upstream'' \<mapsto> name)) p)) (u_Peers u)) us)"
  by (induction us arbitrary: acc) (auto simp: Let_def gatherPeers_eq)

lemma gatherStreamZones_eq:
  "gatherStreamZones tags zs acc =
     acc @ map (\<lambda>(name, z). AddFields ''nginx.stream.zone''
                     [''processing'' \<mapsto> VInt (stz_Processing z),
                      ''connections'' \<mapsto> VInt (stz_Connections z),
                      ''received'' \<mapsto> VInt64 (stz_Received z),
                      ''sent'' \<mapsto> VInt64 (stz_Sent z)] (tags(''zone'' \<mapsto> name))) zs"
  by (induction zs arbitrary: acc) (auto simp: Let_def)

lemma gatherStreamPeers_eq:
  "gatherStreamPeers ut ps acc =
     acc @ map (\<lambda>p. AddFields ''nginx_plus_stream_upstream_peer'' (streamPeerFields p)
                  (streamPeerTags ut p)) ps"
  by (induction ps arbitrary: acc) auto

lemma gatherStreamUpstreams_eq:
  "gatherStreamUpstreams tags us acc =
     acc @ concat (map (\<lambda>(name, u).
        AddFields ''nginx_plus_stream_upstream'' [''zombies'' \<mapsto> VInt (su_Zombies u)]
          (tags(''upstream'' \<mapsto> name))
        # map (\<lambda>p. AddFields ''nginx_plus_stream_upstream_peer'' (streamPeerFields p)
                      (streamPeerTags (tags(''upstream'' \<mapsto> name)) p)) (su_Peers u)) us)"
  by (induction us arbitrary: acc) (auto simp: Let_def gatherStreamPeers_eq)

lemma gatherCaches_Returned:
  "list_all (\<lambda>(name, c). c_Revalidated c \<noteq> None) cs \<Longrightarrow>
   gatherCaches tags cs acc =
     Returned () (acc @ map (\<lambda>(name, c). AddFields ''nginx_plus_cache'' (the (cacheFields c))
                                 (tags(''cache'' \<mapsto> name))) cs)"
  by (induction cs arbitrary: acc) (auto simp: Let_def cacheFields_def)

lemma gatherCaches_Panicked:
  "\<not> list_all (\<lambda>(name, c). c_Revalidated c \<noteq> None) cs \<Longrightarrow>
   gatherCaches tags cs acc =
     Panicked (acc @ map (\<lambda>(name, c). AddFields ''nginx_plus_cache'' (the (cacheFields c))
                                 (tags(''cache'' \<mapsto> name)))
                       (takeWhile (\<lambda>(name, c). c_Revalidated c \<noteq> None) cs))"
  by (induction cs arbitrary: acc) (auto simp: Let_def cacheFields_def)

subsection \<open>When gather returns\<close>

lemma gather_Returned:
  assumes "Processes s = Some pr" and "Ssl s = Some x"
    and "list_all (\<lambda>(name, c). c_Revalidated c \<noteq> None) (Caches s)"
  shows "gather s tags acc =
     Returned ()
       (acc @
        [AddFields ''nginx_plus_processes''
           [''respawned'' \<mapsto> VInt (case Respawned pr of None \<Rightarrow> 0 | Some r \<Rightarrow> r)] tags,
         AddFields ''nginx_plus_connections''
           [''accepted'' \<mapsto> VInt64 (Accepted (Connections s)),
            ''dropped'' \<mapsto> VInt64 (Dropped (Connections s)),
            ''active'' \<mapsto> VInt64 (conn_Active (Connections s)),
            ''idle'' \<mapsto> VInt64 (Idle (Connections s))] tags,
         AddFields ''nginx_plus_ssl''
           [''handshakes'' \<mapsto> VInt64 (Handshakes x),
            ''handshakes_failed'' \<mapsto> VInt64 (HandshakesFailed x),
            ''session_reuses'' \<mapsto> VInt64 (SessionReuses x)] tags,
         AddFields ''nginx_plus_requests''
           [''total'' \<mapsto> VInt64 (req_Total (Requests s)),
            ''current'' \<mapsto> VInt (Current (Requests s))] tags]
        @ map (\<lambda>(name, z). AddFields ''nginx_plus_zone'' (zoneFields z) (tags(''zone'' \<mapsto> name)))
            (ServerZones s)
        @ concat (map (\<lambda>(name, u).
            AddFields ''nginx_plus_upstream'' (upstreamFields u) (tags(''upstream'' \<mapsto> name))
            # map (\<lambda>p. AddFields ''nginx_plus_upstream_peer'' (peerFields p)
                          (peerTags (tags(''upstream'' \<mapsto> name)) p)) (u_Peers u)) (Upstreams s))
        @ map (\<lambda>(name, c). AddFields ''nginx_plus_cache'' (the (cacheFields c))
                 (tags(''cache'' \<mapsto> name))) (Caches s)
        @ map (\<lambda>(name, z). AddFields ''nginx.stream.zone''
                     [''processing'' \<mapsto> VInt (stz_Processing z),
                      ''connections'' \<mapsto> VInt (stz_Connections z),
                      ''received'' \<mapsto> VInt64 (stz_Received z),
                      ''sent'' \<mapsto> VInt64 (stz_Sent z)] (tags(''zone'' \<mapsto> name)))
            (st_ServerZones (Stream s))
        @ concat (map (\<lambda>(name, u).
            AddFields ''nginx_plus_stream_upstream'' [''zombies'' \<mapsto> VInt (su_Zombies u)]
              (tags(''upstream'' \<mapsto> name))
            # map (\<lambda>p. AddFields ''nginx_plus_stream_upstream_peer'' (streamPeerFields p)
                          (streamPeerTags (tags(''upstream'' \<mapsto> name)) p)) (su_Peers u))
            (st_Upstreams (Stream s))))"
  using assms
  by (simp add: gather_def gatherProcessesMetrics_def gatherConnectionsMetrics_def
        gatherSslMetrics_def gatherRequestMetrics_def gatherZoneMetrics_def gatherZones_eq
        gatherUpstreamMetrics_def gatherUpstreams_eq gatherCacheMetrics_def
        gatherCaches_Returned gatherStreamMetrics_def gatherStreamZones_eq
        gatherStreamUpstreams_eq)

lemma gather_Panicked_processes: "Processes s = None \<Longrightarrow> gather s tags acc = Panicked acc"
  by (simp add: gather_def gatherProcessesMetrics_def)

lemma gather_Panicked_ssl:
  "Processes s = Some pr \<Longrightarrow> Ssl s = None \<Longrightarrow> \<exists>a. gather s tags acc = Panicked a"
  by (simp add: gather_def gatherProcessesMetrics_def gatherSslMetrics_def)

lemma gather_Panicked_caches:
  "\<not> list_all (\<lambda>(name, c). c_Revalidated c \<noteq> None) (Caches s) \<Longrightarrow>
     \<exists>a. gather s tags acc = Panicked a"
  by (simp add: gather_def gatherCacheMetrics_def gatherCaches_Panicked
        split: outcome.splits)

lemma gather_returns_iff:
  "(\<exists>a. gather s tags acc = Returned () a) \<longleftrightarrow>
     Processes s \<noteq> None \<and> Ssl s \<noteq> None \<and>
     list_all (\<lambda>(name, c). c_Revalidated c \<noteq> None) (Caches s)"
proof (cases "Processes s")
  case None
  then show ?thesis by (simp add: gather_Panicked_processes)
next
  case (Some pr)
  note pr = this
  show ?thesis
  proof (cases "Ssl s")
    case None
    with gather_Panicked_ssl [OF pr None, of tags acc] pr show ?thesis by auto
  next
    case (Some x)
    show ?thesis
    proof (cases "list_all (\<lambda>(name, c). c_Revalidated c \<noteq> None) (Caches s)")
      case True
      with gather_Returned [OF pr Some True, of tags acc] pr Some show ?thesis by simp
    next
      case False
      with gather_Panicked_caches [OF False, of tags acc] show ?thesis by auto
    qed
  qed
qed

text \<open>
  The calls a function makes do not depend on what the accumulator held before: this is what
  allows a goroutine to be represented by the list of calls it makes.
\<close>

lemma extend_simps [simp]:
  "extend acc (Returned r calls) = Returned r (acc @ calls)"
  "extend acc (Panicked calls) = Panicked (acc @ calls)"
  by (simp_all add: extend_def)

lemma gatherCaches_extend:
  "gatherCaches tags cs acc = extend acc (gatherCaches tags cs [])"
proof (cases "list_all (\<lambda>(name, c). c_Revalidated c \<noteq> None) cs")
  case True
  then show ?thesis by (simp add: gatherCaches_Returned)
next
  case False
  then show ?thesis by (simp add: gatherCaches_Panicked)
qed

lemma gather_extend: "gather s tags acc = extend acc (gather s tags [])"
proof (cases "Processes s")
  case None
  then show ?thesis by (simp add: gather_Panicked_processes)
next
  case (Some pr)
  note pr = this
  show ?thesis
  proof (cases "Ssl s")
    case None
    with pr show ?thesis
      by (simp add: gather_def gatherProcessesMetrics_def gatherSslMetrics_def
            gatherConnectionsMetrics_def)
  next
    case (Some x)
    show ?thesis
    proof (cases "list_all (\<lambda>(name, c). c_Revalidated c \<noteq> None) (Caches s)")
      case True
      from gather_Returned [OF pr Some True, of tags acc] gather_Returned [OF pr Some True, of tags "[]"]
      show ?thesis by simp
    next
      case False
      with pr Some show ?thesis
        by (simp add: gather_def gatherProcessesMetrics_def gatherSslMetrics_def
              gatherConnectionsMetrics_def gatherRequestMetrics_def gatherZoneMetrics_def
              gatherZones_eq gatherUpstreamMetrics_def gatherUpstreams_eq gatherCacheMetrics_def
              gatherCaches_Panicked)
    qed
  qed
qed

lemma gatherStatusURL_extend:
  "gatherStatusURL lib r tags acc = extend acc (gatherStatusURL lib r tags [])"
proof (cases "jsonDecode lib r")
  case None
  then show ?thesis by (simp add: gatherStatusURL_def)
next
  case (Some st)
  show ?thesis
    using gather_extend [of st tags acc]
    by (cases "gather st tags []") (simp_all add: gatherStatusURL_def Some)
qed

lemma gatherURL_extend:
  "gatherURL lib n addr acc = extend acc (gatherURL lib n addr [])"
  using gatherStatusURL_extend [of lib _ _ acc]
  by (simp add: gatherURL_def Let_def split: option.splits sum.splits)

lemma Itoa_examples: "Itoa 0 = ''0''" "Itoa 42 = ''42''" "Itoa (- 7) = ''-7''" "Itoa 1205 = ''1205''"
  by (simp_all add: Itoa_def digitsOf.simps char_of_def bit_0)

subsection \<open>The names of the emitted fields and tags\<close>

lemma dom_getTags: "dom (getTags lib addr) = {''server'', ''port''}"
  by (auto simp: getTags_def Let_def split: option.splits)

lemma dom_zoneFields:
  "dom (zoneFields z) =
     {''processing'', ''requests'', ''responses_1xx'', ''responses_2xx'', ''responses_3xx'',
      ''responses_4xx'', ''responses_5xx'', ''responses_total'', ''received'', ''sent''}
     \<union> (if sz_Discarded z = None then {} else {''discarded''})"
  by (cases "sz_Discarded z") (auto simp: zoneFields_def)

lemma dom_upstreamFields:
  "dom (upstreamFields u) =
     {''keepalive'', ''zombies''}
     \<union> (if u_Queue u = None then {} else {''queue_size'', ''queue_max_size'', ''queue_overflows''})"
  by (cases "u_Queue u") (auto simp: upstreamFields_def)

lemma dom_peerFields:
  "dom (peerFields p) =
     {''backup'', ''weight'', ''state'', ''active'', ''requests'', ''responses_1xx'',
      ''responses_2xx'', ''responses_3xx'', ''responses_4xx'', ''responses_5xx'',
      ''responses_total'', ''sent'', ''received'', ''fails'', ''unavail'',
      ''healthchecks_checks'', ''healthchecks_fails'', ''healthchecks_unhealthy'',
      ''downtime'', ''downstart'', ''selected''}
     \<union> (if p_MaxConns p = None then {} else {''max_conns''})
     \<union> (if p_HeaderTime p = None then {} else {''header_time''})
     \<union> (if p_ResponseTime p = None then {} else {''response_time''})
     \<union> (if LastPassed (p_HealthChecks p) = None then {} else {''healthchecks_last_passed''})"
  by (cases "p_MaxConns p"; cases "p_HeaderTime p"; cases "p_ResponseTime p";
      cases "LastPassed (p_HealthChecks p)")
     (auto simp: peerFields_def Let_def)

lemma dom_peerTags:
  "dom (peerTags ut p) =
     dom ut \<union> {''upstream_address''} \<union> (if p_ID p = None then {} else {''id''})"
  by (cases "p_ID p") (auto simp: peerTags_def Let_def)

lemma dom_streamPeerFields:
  "dom (streamPeerFields p) =
     {''backup'', ''weight'', ''state'', ''active'', ''connections'', ''sent'', ''received'',
      ''fails'', ''unavail'', ''healthchecks_checks'', ''healthchecks_fails'',
      ''healthchecks_unhealthy'', ''downtime'', ''downstart'', ''selected''}
     \<union> (if sp_ConnectTime p = None then {} else {''connect_time''})
     \<union> (if sp_FirstByteTime p = None then {} else {''first_byte_time''})
     \<union> (if sp_ResponseTime p = None then {} else {''response_time''})
     \<union> (if LastPassed (sp_HealthChecks p) = None then {} else {''healthchecks_last_passed''})"
  by (cases "sp_ConnectTime p"; cases "sp_FirstByteTime p"; cases "sp_ResponseTime p";
      cases "LastPassed (sp_HealthChecks p)")
     (auto simp: streamPeerFields_def Let_def)

subsection \<open>The values of the emitted fields and tags\<close>

lemma opt_upd_other:
  "k' \<noteq> k \<Longrightarrow> (case opt of None \<Rightarrow> m | Some v \<Rightarrow> m(k \<mapsto> f v)) k' = m k'"
  by (cases opt) simp_all

lemma opt_upd_same:
  "m k = None \<Longrightarrow>
   (case opt of None \<Rightarrow> m | Some v \<Rightarrow> m(k \<mapsto> f v)) k = map_option f opt"
  by (cases opt) simp_all

lemma opt_upd_restrict:
  "k \<in> A \<Longrightarrow>
   (case opt of None \<Rightarrow> m | Some v \<Rightarrow> m(k \<mapsto> f v)) |` (- A) = m |` (- A)"
  by (cases opt) (auto simp: restrict_map_def fun_eq_iff)

lemma restrict_outside: "dom m \<inter> A = {} \<Longrightarrow> m |` (- A) = m"
proof (rule ext)
  fix x
  assume d: "dom m \<inter> A = {}"
  show "(m |` (- A)) x = m x"
  proof (cases "x \<in> A")
    case True
    with d have "x \<notin> dom m" by blast
    with True show ?thesis by (simp add: restrict_map_def dom_def)
  next
    case False
    then show ?thesis by (simp add: restrict_map_def)
  qed
qed

lemma zoneFields_discarded:
  "zoneFields z ''discarded'' = map_option VInt64 (sz_Discarded z)"
  by (simp add: zoneFields_def Let_def opt_upd_same)

lemma zoneFields_fixed:
  "zoneFields z |` (- {''discarded''}) =
     [''processing'' \<mapsto> VInt (sz_Processing z),
      ''requests'' \<mapsto> VInt64 (sz_Requests z),
      ''responses_1xx'' \<mapsto> VInt64 (Responses1xx (sz_Responses z)),
      ''responses_2xx'' \<mapsto> VInt64 (Responses2xx (sz_Responses z)),
      ''responses_3xx'' \<mapsto> VInt64 (Responses3xx (sz_Responses z)),
      ''responses_4xx'' \<mapsto> VInt64 (Responses4xx (sz_Responses z)),
      ''responses_5xx'' \<mapsto> VInt64 (Responses5xx (sz_Responses z)),
      ''responses_total'' \<mapsto> VInt64 (rs_Total (sz_Responses z)),
      ''received'' \<mapsto> VInt64 (sz_Received z),
      ''sent'' \<mapsto> VInt64 (sz_Sent z)]"
proof -
  define F where "F =
     [''processing'' \<mapsto> VInt (sz_Processing z),
      ''requests'' \<mapsto> VInt64 (sz_Requests z),
      ''responses_1xx'' \<mapsto> VInt64 (Responses1xx (sz_Responses z)),
      ''responses_2xx'' \<mapsto> VInt64 (Responses2xx (sz_Responses z)),
      ''responses_3xx'' \<mapsto> VInt64 (Responses3xx (sz_Responses z)),
      ''responses_4xx'' \<mapsto> VInt64 (Responses4xx (sz_Responses z)),
      ''responses_5xx'' \<mapsto> VInt64 (Responses5xx (sz_Responses z)),
      ''responses_total'' \<mapsto> VInt64 (rs_Total (sz_Responses z)),
      ''received'' \<mapsto> VInt64 (sz_Received z),
      ''sent'' \<mapsto> VInt64 (sz_Sent z)]"
  have "dom F \<inter> {''discarded''} = {}"
    unfolding F_def by simp
  then have a: "F |` (- {''discarded''}) = F"
    by (rule restrict_outside)
  have "zoneFields z |` (- {''discarded''}) = F |` (- {''discarded''})"
    unfolding zoneFields_def Let_def F_def [symmetric] by (simp add: opt_upd_restrict)
  with a show ?thesis
    by (simp only: F_def)
qed

lemma upstreamFields_queue:
  "upstreamFields u ''queue_size'' = map_option (\<lambda>q. VInt (q_Size q)) (u_Queue u)"
  "upstreamFields u ''queue_max_size'' = map_option (\<lambda>q. VInt (q_MaxSize q)) (u_Queue u)"
  "upstreamFields u ''queue_overflows'' = map_option (\<lambda>q. VInt64 (q_Overflows q)) (u_Queue u)"
  by (cases "u_Queue u"; simp add: upstreamFields_def)+

lemma upstreamFields_fixed:
  "upstreamFields u |` (- {''queue_size'', ''queue_max_size'', ''queue_overflows''}) =
     [''keepalive'' \<mapsto> VInt (u_Keepalive u), ''zombies'' \<mapsto> VInt (u_Zombies u)]"
  by (cases "u_Queue u"; simp add: upstreamFields_def restrict_map_def fun_eq_iff)

lemma peerFields_optional:
  "peerFields p ''max_conns'' = map_option VInt (p_MaxConns p)"
  "peerFields p ''header_time'' = map_option VInt64 (p_HeaderTime p)"
  "peerFields p ''response_time'' = map_option VInt64 (p_ResponseTime p)"
  "peerFields p ''healthchecks_last_passed'' = map_option VBool (LastPassed (p_HealthChecks p))"
  by (simp_all add: peerFields_def Let_def opt_upd_other opt_upd_same)

lemma peerFields_fixed:
  "peerFields p |` (- {''max_conns'', ''header_time'', ''response_time'',
                       ''healthchecks_last_passed''}) =
     [''backup'' \<mapsto> VBool (p_Backup p),
      ''weight'' \<mapsto> VInt (p_Weight p),
      ''state'' \<mapsto> VString (p_State p),
      ''active'' \<mapsto> VInt (p_Active p),
      ''requests'' \<mapsto> VInt64 (p_Requests p),
      ''responses_1xx'' \<mapsto> VInt64 (Responses1xx (p_Responses p)),
      ''responses_2xx'' \<mapsto> VInt64 (Responses2xx (p_Responses p)),
      ''responses_3xx'' \<mapsto> VInt64 (Responses3xx (p_Responses p)),
      ''responses_4xx'' \<mapsto> VInt64 (Responses4xx (p_Responses p)),
      ''responses_5xx'' \<mapsto> VInt64 (Responses5xx (p_Responses p)),
      ''responses_total'' \<mapsto> VInt64 (rs_Total (p_Responses p)),
      ''sent'' \<mapsto> VInt64 (p_Sent p),
      ''received'' \<mapsto> VInt64 (p_Received p),
      ''fails'' \<mapsto> VInt64 (p_Fails p),
      ''unavail'' \<mapsto> VInt64 (p_Unavail p),
      ''healthchecks_checks'' \<mapsto> VInt64 (Checks (p_HealthChecks p)),
      ''healthchecks_fails'' \<mapsto> VInt64 (hc_Fails (p_HealthChecks p)),
      ''healthchecks_unhealthy'' \<mapsto> VInt64 (Unhealthy (p_HealthChecks p)),
      ''downtime'' \<mapsto> VInt64 (p_Downtime p),
      ''downstart'' \<mapsto> VInt64 (p_Downstart p),
      ''selected'' \<mapsto> VInt64 (case p_Selected p of None \<Rightarrow> 0 | Some v \<Rightarrow> v)]"
proof -
  define F where "F =
     [''backup'' \<mapsto> VBool (p_Backup p),
      ''weight'' \<mapsto> VInt (p_Weight p),
      ''state'' \<mapsto> VString (p_State p),
      ''active'' \<mapsto> VInt (p_Active p),
      ''requests'' \<mapsto> VInt64 (p_Requests p),
      ''responses_1xx'' \<mapsto> VInt64 (Responses1xx (p_Responses p)),
      ''responses_2xx'' \<mapsto> VInt64 (Responses2xx (p_Responses p)),
      ''responses_3xx'' \<mapsto> VInt64 (Responses3xx (p_Responses p)),
      ''responses_4xx'' \<mapsto> VInt64 (Responses4xx (p_Responses p)),
      ''responses_5xx'' \<mapsto> VInt64 (Responses5xx (p_Responses p)),
      ''responses_total'' \<mapsto> VInt64 (rs_Total (p_Responses p)),
      ''sent'' \<mapsto> VInt64 (p_Sent p),
      ''received'' \<mapsto> VInt64 (p_Received p),
      ''fails'' \<mapsto> VInt64 (p_Fails p),
      ''unavail'' \<mapsto> VInt64 (p_Unavail p),
      ''healthchecks_checks'' \<mapsto> VInt64 (Checks (p_HealthChecks p)),
      ''healthchecks_fails'' \<mapsto> VInt64 (hc_Fails (p_HealthChecks p)),
      ''healthchecks_unhealthy'' \<mapsto> VInt64 (Unhealthy (p_HealthChecks p)),
      ''downtime'' \<mapsto> VInt64 (p_Downtime p),
      ''downstart'' \<mapsto> VInt64 (p_Downstart p),
      ''selected'' \<mapsto> VInt64 (case p_Selected p of None \<Rightarrow> 0 | Some v \<Rightarrow> v)]"
  let ?A = "{''max_conns'', ''header_time'', ''response_time'', ''healthchecks_last_passed''}"
  have "dom F \<inter> ?A = {}"
    unfolding F_def by simp
  then have a: "F |` (- ?A) = F"
    by (rule restrict_outside)
  have "peerFields p |` (- ?A) = F |` (- ?A)"
    unfolding peerFields_def Let_def F_def [symmetric] by (simp add: opt_upd_restrict)
  with a show ?thesis
    by (simp only: F_def)
qed

lemma getTags_id: "getTags lib addr ''id'' = None"
  by (simp add: getTags_def Let_def split: option.splits)

lemma peerTags_id:
  "peerTags ((getTags lib addr)(''upstream'' \<mapsto> name)) p ''id'' = map_option Itoa (p_ID p)"
  by (simp add: peerTags_def Let_def opt_upd_same getTags_id)

lemma peerTags_fixed:
  "peerTags ((getTags lib addr)(''upstream'' \<mapsto> name)) p |` (- {''id''}) =
     (getTags lib addr)(''upstream'' \<mapsto> name, ''upstream_address'' \<mapsto> p_Server p)"
proof -
  define T where
    "T = (getTags lib addr)(''upstream'' \<mapsto> name, ''upstream_address'' \<mapsto> p_Server p)"
  have "T ''id'' = None"
    unfolding T_def by (simp add: getTags_id)
  then have "dom T \<inter> {''id''} = {}"
    by (simp add: dom_def)
  then have a: "T |` (- {''id''}) = T"
    by (rule restrict_outside)
  have "peerTags ((getTags lib addr)(''upstream'' \<mapsto> name)) p |` (- {''id''}) =
          T |` (- {''id''})"
    unfolding peerTags_def Let_def T_def [symmetric] by (simp add: opt_upd_restrict)
  with a show ?thesis
    by (simp only: T_def)
qed

lemma streamPeerFields_optional:
  "streamPeerFields sp ''connect_time'' = map_option VInt (sp_ConnectTime sp)"
  "streamPeerFields sp ''first_byte_time'' = map_option VInt (sp_FirstByteTime sp)"
  "streamPeerFields sp ''response_time'' = map_option VInt (sp_ResponseTime sp)"
  "streamPeerFields sp ''healthchecks_last_passed'' =
     map_option VBool (LastPassed (sp_HealthChecks sp))"
  by (simp_all add: streamPeerFields_def Let_def opt_upd_other opt_upd_same)

lemma streamPeerFields_fixed:
  "streamPeerFields sp |` (- {''connect_time'', ''first_byte_time'', ''response_time'',
                              ''healthchecks_last_passed''}) =
     [''backup'' \<mapsto> VBool (sp_Backup sp),
      ''weight'' \<mapsto> VInt (sp_Weight sp),
      ''state'' \<mapsto> VString (sp_State sp),
      ''active'' \<mapsto> VInt (sp_Active sp),
      ''connections'' \<mapsto> VInt64 (sp_Connections sp),
      ''sent'' \<mapsto> VInt64 (sp_Sent sp),
      ''received'' \<mapsto> VInt64 (sp_Received sp),
      ''fails'' \<mapsto> VInt64 (sp_Fails sp),
      ''unavail'' \<mapsto> VInt64 (sp_Unavail sp),
      ''healthchecks_checks'' \<mapsto> VInt64 (Checks (sp_HealthChecks sp)),
      ''healthchecks_fails'' \<mapsto> VInt64 (hc_Fails (sp_HealthChecks sp)),
      ''healthchecks_unhealthy'' \<mapsto> VInt64 (Unhealthy (sp_HealthChecks sp)),
      ''downtime'' \<mapsto> VInt64 (sp_Downtime sp),
      ''downstart'' \<mapsto> VInt64 (sp_Downstart sp),
      ''selected'' \<mapsto> VInt64 (sp_Selected sp)]"
proof -
  define F where "F =
     [''backup'' \<mapsto> VBool (sp_Backup sp),
      ''weight'' \<mapsto> VInt (sp_Weight sp),
      ''state'' \<mapsto> VString (sp_State sp),
      ''active'' \<mapsto> VInt (sp_Active sp),
      ''connections'' \<mapsto> VInt64 (sp_Connections sp),
      ''sent'' \<mapsto> VInt64 (sp_Sent sp),
      ''received'' \<mapsto> VInt64 (sp_Received sp),
      ''fails'' \<mapsto> VInt64 (sp_Fails sp),
      ''unavail'' \<mapsto> VInt64 (sp_Unavail sp),
      ''healthchecks_checks'' \<mapsto> VInt64 (Checks (sp_HealthChecks sp)),
      ''healthchecks_fails'' \<mapsto> VInt64 (hc_Fails (sp_HealthChecks sp)),
      ''healthchecks_unhealthy'' \<mapsto> VInt64 (Unhealthy (sp_HealthChecks sp)),
      ''downtime'' \<mapsto> VInt64 (sp_Downtime sp),
      ''downstart'' \<mapsto> VInt64 (sp_Downstart sp),
      ''selected'' \<mapsto> VInt64 (sp_Selected sp)]"
  let ?A = "{''connect_time'', ''first_byte_time'', ''response_time'',
             ''healthchecks_last_passed''}"
  have "dom F \<inter> ?A = {}"
    unfolding F_def by simp
  then have a: "F |` (- ?A) = F"
    by (rule restrict_outside)
  have "streamPeerFields sp |` (- ?A) = F |` (- ?A)"
    unfolding streamPeerFields_def Let_def F_def [symmetric] by (simp add: opt_upd_restrict)
  with a show ?thesis
    by (simp only: F_def)
qed

lemma streamPeerTags_values:
  "streamPeerTags ((getTags lib addr)(''upstream'' \<mapsto> name)) sp =
     (getTags lib addr)(''upstream'' \<mapsto> name, ''upstream_address'' \<mapsto> sp_Server sp,
                        ''id'' \<mapsto> Itoa (sp_ID sp))"
  by (simp only: streamPeerTags_def)

subsection \<open>Every schedule of the goroutines\<close>

lemma mainStep_crashed [simp]: "crashed (mainStep lib n st) = crashed st"
  by (simp add: mainStep_def split: list.splits sum.splits)

lemma mainStep_outstanding [simp]:
  "outstanding lib n (mainStep lib n st) = outstanding lib n st"
  by (simp add: mainStep_def outstanding_def urlCalls_def split: list.splits sum.splits)

lemma mainStep_panicAhead [simp]:
  "panicAhead lib n (mainStep lib n st) = panicAhead lib n st"
  by (auto simp: mainStep_def panicAhead_def urlPanics_def split: list.splits sum.splits)

lemma concat_fst_update:
  assumes "i < length xs" and "xs ! i = (c # cs, b)"
  shows "mset (concat (map fst (xs[i := (cs, b)]))) + {#c#} = mset (concat (map fst xs))"
proof -
  from assms have xs: "xs = take i xs @ (c # cs, b) # drop (Suc i) xs"
    by (metis id_take_nth_drop)
  have "xs[i := (cs, b)] = take i xs @ (cs, b) # drop (Suc i) xs"
    using assms(1) by (rule upd_conv_take_nth_drop)
  then have "mset (concat (map fst (xs[i := (cs, b)]))) + {#c#}
      = mset (concat (map fst (take i xs @ (c # cs, b) # drop (Suc i) xs)))"
    by simp
  with xs show ?thesis by simp
qed

lemma threadStep_outstanding [simp]:
  "outstanding lib n (threadStep i st) = outstanding lib n st"
proof (cases "i < length (running st)")
  case False
  then show ?thesis by (simp add: threadStep_def)
next
  case True
  obtain cs b where r: "running st ! i = (cs, b)" by (cases "running st ! i")
  show ?thesis
  proof (cases cs)
    case Nil
    with True r show ?thesis by (cases b) (simp_all add: threadStep_def outstanding_def)
  next
    case (Cons c cs')
    with concat_fst_update [OF True, of c cs' b] r True show ?thesis
      by (simp add: threadStep_def outstanding_def)
  qed
qed

lemma list_ex_snd_update:
  "i < length xs \<Longrightarrow> snd (xs ! i) = b \<Longrightarrow> list_ex snd (xs[i := (cs, b)]) = list_ex snd xs"
  by (induction xs arbitrary: i) (auto split: nat.splits)

lemma threadStep_panicAhead [simp]:
  "panicAhead lib n (threadStep i st) = panicAhead lib n st"
proof (cases "i < length (running st)")
  case False
  then show ?thesis by (simp add: threadStep_def)
next
  case True
  obtain cs b where r: "running st ! i = (cs, b)" by (cases "running st ! i")
  show ?thesis
  proof (cases cs)
    case Nil
    with True r show ?thesis by (cases b) (simp_all add: threadStep_def panicAhead_def)
  next
    case (Cons c cs')
    with True r list_ex_snd_update [OF True, of b cs'] show ?thesis
      by (simp add: threadStep_def panicAhead_def)
  qed
qed

lemma threadStep_crashed:
  "crashed (threadStep i st) \<Longrightarrow> crashed st \<or> panicAhead lib n st"
proof (cases "i < length (running st)")
  case False
  assume "crashed (threadStep i st)"
  with False show ?thesis by (simp add: threadStep_def)
next
  case True
  assume c: "crashed (threadStep i st)"
  obtain cs b where r: "running st ! i = (cs, b)" by (cases "running st ! i")
  show ?thesis
  proof (cases "cs = [] \<and> b")
    case True
    with r have "snd (running st ! i)" by simp
    moreover from \<open>i < length (running st)\<close> have "running st ! i \<in> set (running st)"
      by (rule nth_mem)
    ultimately have "snd (running st ! i)" "running st ! i \<in> set (running st)" .
    then have "list_ex snd (running st)" unfolding list_ex_iff by blast
    then show ?thesis by (simp add: panicAhead_def)
  next
    case False
    with c r \<open>i < length (running st)\<close> show ?thesis
      by (cases cs; cases b) (simp_all add: threadStep_def)
  qed
qed

lemma threadStep_length [simp]: "length (running (threadStep i st)) = length (running st)"
  by (simp add: threadStep_def split: prod.splits list.splits bool.splits)

lemma threadStep_pending [simp]: "pending (threadStep i st) = pending st"
  by (simp add: threadStep_def split: prod.splits list.splits bool.splits)

lemma run_outstanding [simp]: "outstanding lib n (run lib n sched st) = outstanding lib n st"
  by (induction sched arbitrary: st) (auto split: nat.splits)

lemma run_panicAhead [simp]: "panicAhead lib n (run lib n sched st) = panicAhead lib n st"
  by (induction sched arbitrary: st) (auto split: nat.splits)

lemma run_crashed:
  "crashed (run lib n sched st) \<Longrightarrow> crashed st \<or> panicAhead lib n st"
proof (induction sched arbitrary: st)
  case Nil
  then show ?case by simp
next
  case (Cons k ks)
  show ?case
  proof (cases "crashed st")
    case True
    then show ?thesis by simp
  next
    case False
    show ?thesis
    proof (cases k)
      case 0
      with Cons.prems False have "crashed (run lib n ks (mainStep lib n st))" by simp
      from Cons.IH [OF this] show ?thesis by simp
    next
      case (Suc i)
      with Cons.prems False have "crashed (run lib n ks (threadStep i st))" by simp
      from Cons.IH [OF this] threadStep_crashed [of i st lib n] show ?thesis by auto
    qed
  qed
qed


lemma finishLoop_crashed [simp]: "crashed (finishLoop lib n k st) = crashed st"
  by (induction k arbitrary: st) auto

lemma finishLoop_outstanding [simp]:
  "outstanding lib n (finishLoop lib n k st) = outstanding lib n st"
  by (induction k arbitrary: st) auto

lemma finishLoop_panicAhead [simp]:
  "panicAhead lib n (finishLoop lib n k st) = panicAhead lib n st"
  by (induction k arbitrary: st) auto

lemma mainStep_pending: "pending (mainStep lib n st) = tl (pending st)"
  by (simp add: mainStep_def split: list.splits sum.splits)

lemma finishLoop_pending: "length (pending st) \<le> k \<Longrightarrow> pending (finishLoop lib n k st) = []"
proof (induction k arbitrary: st)
  case 0
  then show ?case by simp
next
  case (Suc k)
  have "length (pending (mainStep lib n st)) \<le> k"
    using Suc.prems by (simp add: mainStep_pending)
  from Suc.IH [OF this] show ?case by simp
qed

lemma finishThread_outstanding [simp]:
  "outstanding lib n (finishThread i k st) = outstanding lib n st"
  by (induction k arbitrary: st) auto

lemma finishThread_panicAhead [simp]:
  "panicAhead lib n (finishThread i k st) = panicAhead lib n st"
  by (induction k arbitrary: st) auto

lemma finishThread_length [simp]: "length (running (finishThread i k st)) = length (running st)"
  by (induction k arbitrary: st) auto

lemma finishThread_pending [simp]: "pending (finishThread i k st) = pending st"
  by (induction k arbitrary: st) auto

lemma finishThread_crashed:
  "crashed (finishThread i k st) \<Longrightarrow> crashed st \<or> panicAhead lib n st"
proof (induction k arbitrary: st)
  case 0
  then show ?case by simp
next
  case (Suc k)
  show ?case
  proof (cases "crashed st")
    case True
    then show ?thesis by simp
  next
    case False
    with Suc.prems have "crashed (finishThread i k (threadStep i st))" by simp
    from Suc.IH [OF this] threadStep_crashed [of i st lib n] show ?thesis by auto
  qed
qed

lemma threadStep_threadDone: "threadDone j st \<Longrightarrow> threadDone j (threadStep i st)"
proof (cases "i < length (running st)")
  case False
  assume "threadDone j st"
  with False show ?thesis by (simp add: threadStep_def)
next
  case True
  assume d: "threadDone j st"
  obtain cs b where r: "running st ! i = (cs, b)" by (cases "running st ! i")
  show ?thesis
  proof (cases cs)
    case Nil
    with d r True show ?thesis by (cases b) (simp_all add: threadStep_def threadDone_def)
  next
    case (Cons c cs')
    with d r True show ?thesis
      by (cases "i = j") (auto simp: threadStep_def threadDone_def)
  qed
qed

lemma finishThread_threadDone: "threadDone j st \<Longrightarrow> threadDone j (finishThread i k st)"
  by (induction k arbitrary: st) (auto simp: threadStep_threadDone)

lemma finishThread_finishes:
  "i < length (running st) \<Longrightarrow> length (fst (running st ! i)) < k
     \<Longrightarrow> threadDone i (finishThread i k st)"
proof (induction k arbitrary: st)
  case 0
  then show ?case by simp
next
  case (Suc k)
  show ?case
  proof (cases "crashed st")
    case True
    then show ?thesis by (simp add: threadDone_def)
  next
    case False
    obtain cs b where r: "running st ! i = (cs, b)" by (cases "running st ! i")
    show ?thesis
    proof (cases cs)
      case Nil
      with r Suc.prems have "threadDone i (threadStep i st)"
        by (cases b) (simp_all add: threadStep_def threadDone_def)
      then have "threadDone i (finishThread i k (threadStep i st))"
        by (rule finishThread_threadDone)
      with False show ?thesis by simp
    next
      case (Cons c cs')
      with r Suc.prems have "i < length (running (threadStep i st))"
        and "length (fst (running (threadStep i st) ! i)) < k"
        by (simp_all add: threadStep_def)
      from Suc.IH [OF this] False show ?thesis by simp
    qed
  qed
qed

declare finishThread.simps [simp del]

lemma finishThreads_outstanding [simp]:
  "outstanding lib n (finishThreads is st) = outstanding lib n st"
  by (induction "is" arbitrary: st) auto

lemma finishThreads_panicAhead [simp]:
  "panicAhead lib n (finishThreads is st) = panicAhead lib n st"
  by (induction "is" arbitrary: st) auto

lemma finishThreads_length [simp]: "length (running (finishThreads is st)) = length (running st)"
  by (induction "is" arbitrary: st) auto

lemma finishThreads_pending [simp]: "pending (finishThreads is st) = pending st"
  by (induction "is" arbitrary: st) auto

lemma finishThreads_crashed:
  "crashed (finishThreads is st) \<Longrightarrow> crashed st \<or> panicAhead lib n st"
proof (induction "is" arbitrary: st)
  case Nil
  then show ?case by simp
next
  case (Cons i "is")
  from Cons.IH [of "finishThread i (Suc (length (fst (running st ! i)))) st"] Cons.prems
  have "crashed (finishThread i (Suc (length (fst (running st ! i)))) st) \<or> panicAhead lib n st"
    by simp
  with finishThread_crashed [of i _ st lib n] show ?case by auto
qed

lemma finishThreads_threadDone: "threadDone j st \<Longrightarrow> threadDone j (finishThreads is st)"
  by (induction "is" arbitrary: st) (auto simp: finishThread_threadDone)

lemma finishThreads_finishes:
  "j \<in> set is \<Longrightarrow> j < length (running st) \<Longrightarrow> threadDone j (finishThreads is st)"
proof (induction "is" arbitrary: st)
  case Nil
  then show ?case by simp
next
  case (Cons i "is")
  let ?st = "finishThread i (Suc (length (fst (running st ! i)))) st"
  show ?case
  proof (cases "j = i")
    case True
    with Cons.prems have "threadDone j ?st" by (simp add: finishThread_finishes)
    then show ?thesis by (simp add: finishThreads_threadDone)
  next
    case False
    with Cons.prems have "j \<in> set is" and "j < length (running ?st)" by simp_all
    from Cons.IH [OF this] show ?thesis by simp
  qed
qed

lemma all_done_no_calls:
  assumes "\<forall>j < length xs. xs ! j = ([], False)"
  shows "concat (map fst xs) = [] \<and> \<not> list_ex snd xs"
proof -
  from assms have "\<forall>x \<in> set xs. x = ([], False)"
    by (metis in_set_conv_nth)
  then show ?thesis by (induction xs) (auto simp: list_ex_iff)
qed

lemma finish_result:
  assumes "\<not> crashed st"
  shows "outstanding lib n (finish lib n st) = outstanding lib n st"
    and "crashed (finish lib n st) \<longleftrightarrow> panicAhead lib n st"
    and "\<not> crashed (finish lib n st) \<Longrightarrow>
           mset (shared (finish lib n st)) = outstanding lib n st"
proof -
  let ?st1 = "finishLoop lib n (length (pending st)) st"
  let ?st2 = "finishThreads [0..<length (running ?st1)] ?st1"
  have f: "finish lib n st = ?st2" using assms by (simp add: finish_def Let_def)
  show o: "outstanding lib n (finish lib n st) = outstanding lib n st" by (simp add: f)
  have p1: "pending ?st2 = []" by (simp add: finishLoop_pending)
  have d: "\<forall>j < length (running ?st2). threadDone j ?st2"
    by (simp add: finishThreads_finishes)
  have nc: "\<not> crashed ?st2 \<Longrightarrow> concat (map fst (running ?st2)) = [] \<and> \<not> list_ex snd (running ?st2)"
  proof -
    assume "\<not> crashed ?st2"
    with d have "\<forall>j < length (running ?st2). running ?st2 ! j = ([], False)"
      unfolding threadDone_def by blast
    then show ?thesis by (rule all_done_no_calls)
  qed
  show c: "crashed (finish lib n st) \<longleftrightarrow> panicAhead lib n st"
  proof
    assume "crashed (finish lib n st)"
    then have "crashed ?st2" by (simp add: f)
    from finishThreads_crashed [OF this, of lib n] assms show "panicAhead lib n st" by simp
  next
    assume pa: "panicAhead lib n st"
    show "crashed (finish lib n st)"
    proof (rule ccontr)
      assume "\<not> crashed (finish lib n st)"
      then have "\<not> crashed ?st2" by (simp add: f)
      from nc [OF this] p1 have "\<not> panicAhead lib n ?st2" by (simp add: panicAhead_def)
      with pa show False by simp
    qed
  qed
  show "\<not> crashed (finish lib n st) \<Longrightarrow> mset (shared (finish lib n st)) = outstanding lib n st"
  proof -
    assume "\<not> crashed (finish lib n st)"
    then have "\<not> crashed ?st2" by (simp add: f)
    from nc [OF this] p1 have "outstanding lib n ?st2 = mset (shared ?st2)"
      by (simp add: outstanding_def)
    with o f show ?thesis by simp
  qed
qed

lemma initial_state:
  "outstanding lib n \<lparr>pending = us, running = [], shared = acc, crashed = False\<rparr>
     = mset acc + mset (concat (map (urlCalls lib n) us))"
  "panicAhead lib n \<lparr>pending = us, running = [], shared = acc, crashed = False\<rparr>
     = list_ex (urlPanics lib n) us"
  by (simp_all add: outstanding_def panicAhead_def)

lemma gatherAll_result:
  "(list_ex (urlPanics lib n) (Urls n) \<longrightarrow>
      (\<exists>a. gatherAll lib n sched acc = GCrashed a \<and>
           mset a \<subseteq># mset acc + mset (concat (map (urlCalls lib n) (Urls n)))))
   \<and> (\<not> list_ex (urlPanics lib n) (Urls n) \<longrightarrow>
      (\<exists>a. gatherAll lib n sched acc = GReturned None a \<and>
           mset a = mset acc + mset (concat (map (urlCalls lib n) (Urls n)))))"
proof -
  let ?st0 = "\<lparr>pending = Urls n, running = [], shared = acc, crashed = False\<rparr>"
  let ?st = "run lib n sched ?st0"
  let ?fin = "finish lib n ?st"
  have g: "gatherAll lib n sched acc =
      (if crashed ?fin then GCrashed (shared ?fin) else GReturned None (shared ?fin))"
    by (simp add: gatherAll_def Let_def)
  have o: "outstanding lib n ?fin = mset acc + mset (concat (map (urlCalls lib n) (Urls n)))"
  proof (cases "crashed ?st")
    case True
    then have "?fin = ?st" by (simp add: finish_def)
    then show ?thesis by (simp add: initial_state)
  next
    case False
    from finish_result(1) [OF this, of lib n] show ?thesis by (simp add: initial_state)
  qed
  have sub: "mset (shared ?fin) \<subseteq># mset acc + mset (concat (map (urlCalls lib n) (Urls n)))"
    unfolding o [symmetric] by (simp add: outstanding_def add.assoc)
  have c: "crashed ?fin \<longleftrightarrow> list_ex (urlPanics lib n) (Urls n)"
  proof (cases "crashed ?st")
    case True
    then have "?fin = ?st" by (simp add: finish_def)
    with True run_crashed [OF True] show ?thesis by (simp add: initial_state)
  next
    case False
    from finish_result(2) [OF this, of lib n] show ?thesis by (simp add: initial_state)
  qed
  have r: "\<not> crashed ?fin \<Longrightarrow>
      mset (shared ?fin) = mset acc + mset (concat (map (urlCalls lib n) (Urls n)))"
  proof -
    assume nc: "\<not> crashed ?fin"
    then have "\<not> crashed ?st" by (auto simp: finish_def)
    from finish_result(3) [OF this, of lib n] nc show ?thesis by (simp add: initial_state)
  qed
  from g c r sub show ?thesis by auto
qed

lemma ngx_Gather_outcome:
  "(client n = None \<and> snd (createHTTPClient lib n) = Inl err \<longrightarrow>
      snd (ngx_Gather lib n sched acc) = GReturned (Some err) acc)
   \<and> (snd (ngx_Gather lib n sched acc) = GReturned (Some err) a \<longrightarrow>
      client n = None \<and> snd (createHTTPClient lib n) = Inl err \<and> a = acc)
   \<and> (client (fst (ngx_Gather lib n sched acc)) \<noteq> None \<and>
       \<not> list_ex (urlPanics lib (fst (ngx_Gather lib n sched acc))) (Urls n) \<longrightarrow>
      (\<exists>a. snd (ngx_Gather lib n sched acc) = GReturned None a \<and>
           mset a = mset acc +
             mset (concat (map (urlCalls lib (fst (ngx_Gather lib n sched acc))) (Urls n)))))
   \<and> (client (fst (ngx_Gather lib n sched acc)) \<noteq> None \<and>
       list_ex (urlPanics lib (fst (ngx_Gather lib n sched acc))) (Urls n) \<longrightarrow>
      (\<exists>a. snd (ngx_Gather lib n sched acc) = GCrashed a))"
proof (cases "client n")
  case (Some c)
  with gatherAll_result [of lib n sched acc] show ?thesis
    by (auto simp: ngx_Gather_def)
next
  case None
  obtain n1 r where cr: "createHTTPClient lib n = (n1, r)" by (cases "createHTTPClient lib n")
  have u: "Urls n1 = Urls n" and cl: "client n1 = None"
    using cr None by (auto simp: createHTTPClient_def Let_def split: sum.splits if_splits)
  show ?thesis
  proof (cases r)
    case (Inl e)
    with None cr cl show ?thesis by (simp add: ngx_Gather_def)
  next
    case (Inr c)
    with None cr u gatherAll_result [of lib "n1\<lparr>client := Some c\<rparr>" sched acc] show ?thesis
      by (auto simp: ngx_Gather_def)
  qed
qed

text \<open>
  A goroutine panics exactly when its URL parses, the server answers with status 200 and a
  JSON content type, the body decodes, and the document lacks the processes section, the ssl
  section or the revalidated block of a cache.
\<close>

lemma urlPanics_iff:
  assumes "client n = Some c"
  shows "urlPanics lib n u \<longleftrightarrow>
     (\<exists>addr resp st.
        urlParse lib u = Inr addr \<and> httpGet lib c (url_String addr) = Inr resp \<and>
        StatusCode resp = 200 \<and>
        takeWhile (\<lambda>c. c \<noteq> CHR '';'') (ContentType resp) = ''application/json'' \<and>
        jsonDecode lib (Body resp) = Some st \<and>
        \<not> (Processes st \<noteq> None \<and> Ssl st \<noteq> None \<and>
           list_all (\<lambda>(name, c). c_Revalidated c \<noteq> None) (Caches st)))"
proof (cases "urlParse lib u")
  case (Inl e)
  then show ?thesis by (simp add: urlPanics_def)
next
  case (Inr addr)
  note addr = this
  show ?thesis
  proof (cases "httpGet lib c (url_String addr)")
    case (Inl e)
    with addr assms show ?thesis by (simp add: urlPanics_def goroutine_def gatherURL_def)
  next
    case (Inr resp)
    note resp = this
    show ?thesis
    proof (cases "StatusCode resp = 200 \<and>
        takeWhile (\<lambda>c. c \<noteq> CHR '';'') (ContentType resp) = ''application/json''")
      case False
      with addr resp assms show ?thesis
        by (auto simp: urlPanics_def goroutine_def gatherURL_def Let_def)
    next
      case True
      note ok = this
      show ?thesis
      proof (cases "jsonDecode lib (Body resp)")
        case None
        with addr resp ok assms show ?thesis
          by (simp add: urlPanics_def goroutine_def gatherURL_def gatherStatusURL_def)
      next
        case (Some st)
        have "snd (goroutine lib n addr) \<longleftrightarrow>
            \<not> (\<exists>a. gather st (getTags lib addr) [] = Returned () a)"
          using addr resp ok assms Some
          by (cases "gather st (getTags lib addr) []")
             (simp_all add: goroutine_def gatherURL_def gatherStatusURL_def)
        with addr resp ok Some show ?thesis
          by (simp add: urlPanics_def gather_returns_iff)
      qed
    qed
  qed
qed

subsection \<open>Evaluation of the examples\<close>

lemma example_getTags:
  "getTags example_library localhost_url = [''server'' \<mapsto> ''localhost'', ''port'' \<mapsto> ''8080'']"
  "getTags example_library old_url = [''server'' \<mapsto> ''old'', ''port'' \<mapsto> ''443'']"
  by (simp_all add: getTags_def example_library_def localhost_url_def old_url_def)

lemma example_gather_v6:
  "gather status_v6 tags [] =
     Returned ()
       [AddFields ''nginx_plus_processes'' [''respawned'' \<mapsto> VInt 3] tags,
        AddFields ''nginx_plus_connections''
          [''accepted'' \<mapsto> VInt64 10, ''dropped'' \<mapsto> VInt64 0, ''active'' \<mapsto> VInt64 2,
           ''idle'' \<mapsto> VInt64 1] tags,
        AddFields ''nginx_plus_ssl''
          [''handshakes'' \<mapsto> VInt64 5, ''handshakes_failed'' \<mapsto> VInt64 1,
           ''session_reuses'' \<mapsto> VInt64 2] tags,
        AddFields ''nginx_plus_requests'' [''total'' \<mapsto> VInt64 7, ''current'' \<mapsto> VInt 1] tags]"
proof -
  have "Processes status_v6 = Some \<lparr>Respawned = Some 3\<rparr>"
    and "Ssl status_v6 = Some \<lparr>Handshakes = 5, HandshakesFailed = 1, SessionReuses = 2\<rparr>"
    and "list_all (\<lambda>(name, c). c_Revalidated c \<noteq> None) (Caches status_v6)"
    by (simp_all add: status_v6_def status_v4_def empty_status_def)
  from gather_Returned [OF this, of tags "[]"] show ?thesis
    by (simp add: status_v6_def status_v4_def empty_status_def)
qed

lemma example_gather_v4: "gather status_v4 tags acc = Panicked acc"
  by (rule gather_Panicked_processes) (simp add: status_v4_def empty_status_def)

lemma example_sel:
  "httpGet example_library c ''http://localhost:8080/status'' =
     Inr \<lparr>StatusCode = 200, Status = ''200 OK'',
          ContentType = ''application/json; charset=utf-8'', Body = ''v6''\<rparr>"
  "httpGet example_library c ''https://old/status'' =
     Inr \<lparr>StatusCode = 200, Status = ''200 OK'', ContentType = ''application/json'', Body = ''v4''\<rparr>"
  "httpGet example_library c ''http://web/'' =
     Inr \<lparr>StatusCode = 200, Status = ''200 OK'', ContentType = ''text/html'', Body = ''<html>''\<rparr>"
  "httpGet example_library c ''http://gone/'' =
     Inr \<lparr>StatusCode = 404, Status = ''404 Not Found'', ContentType = ''text/html'', Body = []\<rparr>"
  "jsonDecode example_library ''v6'' = Some status_v6"
  "jsonDecode example_library ''v4'' = Some status_v4"
  "jsonDecode example_library ''{'' = None"
  "urlParse example_library ''http://localhost:8080/status'' = Inr localhost_url"
  "urlParse example_library ''https://old/status'' = Inr old_url"
  "urlParse example_library ''http://web/'' = Inr web_url"
  "urlParse example_library ''::bad::'' = Inl (ErrExternal ''invalid URL'')"
  "TLSConfig example_library cfg = Inr ()"
  by (simp_all add: example_library_def localhost_url_def old_url_def web_url_def)

lemma example_gatherURL:
  "client n = Some c \<Longrightarrow> gatherURL example_library n localhost_url [] =
     Returned None (acc_of (gather status_v6 [''server'' \<mapsto> ''localhost'', ''port'' \<mapsto> ''8080''] []))"
  "client n = Some c \<Longrightarrow> gatherURL example_library n old_url [] = Panicked []"
  "client n = Some c \<Longrightarrow> gatherURL example_library n web_url [] =
     Returned (Some (ErrContentType ''http://web/'' ''text/html'')) []"
  "client n = Some c \<Longrightarrow> gatherURL example_library n gone_url [] =
     Returned (Some (ErrHTTPStatus ''http://gone/'' ''404 Not Found'')) []"
     apply (simp add: gatherURL_def gatherStatusURL_def example_sel example_getTags
        example_gather_v6 localhost_url_def [THEN arg_cong [where f = url_String]])
    apply (simp add: gatherURL_def gatherStatusURL_def example_sel example_getTags
        example_gather_v4 old_url_def [THEN arg_cong [where f = url_String]])
   apply (simp add: gatherURL_def gatherStatusURL_def example_sel
        web_url_def [THEN arg_cong [where f = url_String]])
  apply (simp add: gatherURL_def gatherStatusURL_def example_sel
        gone_url_def [THEN arg_cong [where f = url_String]])
  done

text \<open>
  One schedule of the example plugin, step by step: the loop starts the first goroutine, the
  goroutine emits a metric, the loop reports the URL that does not parse, and so on.
\<close>

lemma example_schedule:
  "ngx_Gather example_library example_plugin [0, 1, 0, 1, 0, 2] [] =
     (example_plugin\<lparr>ResponseTimeout := 5000000000, client := Some example_client\<rparr>,
      GReturned None
        [AddFields ''nginx_plus_processes'' [''respawned'' \<mapsto> VInt 3]
           [''server'' \<mapsto> ''localhost'', ''port'' \<mapsto> ''8080''],
         AddError (Some (ErrUnableToParseAddress ''::bad::'' (ErrExternal ''invalid URL''))),
         AddFields ''nginx_plus_connections''
           [''accepted'' \<mapsto> VInt64 10, ''dropped'' \<mapsto> VInt64 0, ''active'' \<mapsto> VInt64 2,
            ''idle'' \<mapsto> VInt64 1]
           [''server'' \<mapsto> ''localhost'', ''port'' \<mapsto> ''8080''],
         AddError (Some (ErrContentType ''http://web/'' ''text/html'')),
         AddFields ''nginx_plus_ssl''
           [''handshakes'' \<mapsto> VInt64 5, ''handshakes_failed'' \<mapsto> VInt64 1,
            ''session_reuses'' \<mapsto> VInt64 2]
           [''server'' \<mapsto> ''localhost'', ''port'' \<mapsto> ''8080''],
         AddFields ''nginx_plus_requests'' [''total'' \<mapsto> VInt64 7, ''current'' \<mapsto> VInt 1]
           [''server'' \<mapsto> ''localhost'', ''port'' \<mapsto> ''8080''],
         AddError None])"
proof -
  let ?n = "example_plugin\<lparr>ResponseTimeout := 5000000000, client := Some example_client\<rparr>"
  have cn: "client example_plugin = None" by (simp add: example_plugin_def)
  have c: "createHTTPClient example_library example_plugin
       = (example_plugin\<lparr>ResponseTimeout := 5000000000\<rparr>, Inr example_client)"
    by (simp add: createHTTPClient_def example_sel example_client_def Second_def
          example_plugin_def)
  have cl: "client ?n = Some example_client" by simp
  have u: "Urls ?n = [''http://localhost:8080/status'', ''::bad::'', ''http://web/'']"
    by (simp add: example_plugin_def)
  have g1: "goroutine example_library ?n localhost_url =
      (acc_of (gather status_v6 [''server'' \<mapsto> ''localhost'', ''port'' \<mapsto> ''8080''] [])
         @ [AddError None], False)"
    by (simp add: goroutine_def example_gatherURL(1) [OF cl])
  have g2: "goroutine example_library ?n web_url =
      ([AddError (Some (ErrContentType ''http://web/'' ''text/html''))], False)"
    by (simp add: goroutine_def example_gatherURL(3) [OF cl])
  have "gatherAll example_library ?n [0, 1, 0, 1, 0, 2] [] = GReturned None
        [AddFields ''nginx_plus_processes'' [''respawned'' \<mapsto> VInt 3]
           [''server'' \<mapsto> ''localhost'', ''port'' \<mapsto> ''8080''],
         AddError (Some (ErrUnableToParseAddress ''::bad::'' (ErrExternal ''invalid URL''))),
         AddFields ''nginx_plus_connections''
           [''accepted'' \<mapsto> VInt64 10, ''dropped'' \<mapsto> VInt64 0, ''active'' \<mapsto> VInt64 2,
            ''idle'' \<mapsto> VInt64 1]
           [''server'' \<mapsto> ''localhost'', ''port'' \<mapsto> ''8080''],
         AddError (Some (ErrContentType ''http://web/'' ''text/html'')),
         AddFields ''nginx_plus_ssl''
           [''handshakes'' \<mapsto> VInt64 5, ''handshakes_failed'' \<mapsto> VInt64 1,
            ''session_reuses'' \<mapsto> VInt64 2]
           [''server'' \<mapsto> ''localhost'', ''port'' \<mapsto> ''8080''],
         AddFields ''nginx_plus_requests'' [''total'' \<mapsto> VInt64 7, ''current'' \<mapsto> VInt 1]
           [''server'' \<mapsto> ''localhost'', ''port'' \<mapsto> ''8080''],
         AddError None]"
    by (simp add: gatherAll_def u mainStep_def threadStep_def example_sel g1 g2
          example_gather_v6 finish_def Let_def finishThread.simps upt_rec)
  then show ?thesis by (simp add: ngx_Gather_def cn c)
qed

section \<open>The claims about the nginx_plus plugin\<close>

text \<open>
  Claim C1 says that \<open>gather\<close> emits the metrics of all eight sections for every decoded
  document, also for one without the processes section, the ssl section or the revalidated
  block of a cache, and that every pointer dereference is safe. The code dereferences the
  three pointers without a test. On the document \<^verbatim>\<open>{}\<close> the processes and the ssl function
  panic, on a cache without the revalidated block the cache function panics, and \<open>gather\<close> on
  \<^verbatim>\<open>{}\<close> panics before anything is emitted. In general \<open>gather\<close> returns exactly for the
  documents that have all three (lemma \<open>gather_returns_iff\<close>).
\<close>

theorem gather_nil_dereferences:
  "gatherProcessesMetrics empty_status example_tags [] = Panicked []
   \<and> gatherSslMetrics empty_status example_tags [] = Panicked []
   \<and> gatherCacheMetrics (empty_status\<lparr>Caches := [(''one'', cache_v2)]\<rparr>) example_tags []
       = Panicked []
   \<and> gather empty_status example_tags [] = Panicked []"
  by (simp add: gatherProcessesMetrics_def gatherSslMetrics_def gatherCacheMetrics_def
        gather_def empty_status_def cache_v2_def cacheFields_def)

text \<open>
  Claim C2 says that for every decoded document \<open>gather\<close> emits exactly one
  \<^verbatim>\<open>nginx_plus_connections\<close> metric, one \<^verbatim>\<open>nginx_plus_requests\<close> metric and one metric per
  zone, upstream, peer, cache and stream entry. On a document of schema version 4, which has
  no processes section, \<open>gather\<close> panics in its first step: the accumulator stays empty and
  holds no \<^verbatim>\<open>nginx_plus_connections\<close> metric. For the documents on which \<open>gather\<close> returns,
  lemma \<open>gather_Returned\<close> gives the emitted list, which is the one the claim describes.
\<close>

theorem gather_version4_emits_nothing:
  "gather status_v4 example_tags [] = Panicked []
   \<and> filter (\<lambda>c. \<exists>f t. c = AddFields ''nginx_plus_connections'' f t)
        (acc_of (gather status_v4 example_tags [])) = []"
  by (simp add: example_gather_v4)

text \<open>
  Claim C5. The three functions that flatten server zones, upstreams with their peers, and
  the stream section emit one metric per entry, never panic, and in the emitted records each
  optional datum is present exactly when it was present in the decoded document: the zone
  field discarded; the upstream fields queue_size, queue_max_size and queue_overflows; the
  peer fields max_conns, header_time, response_time and healthchecks_last_passed and the
  peer tag id; the stream peer fields connect_time, first_byte_time, response_time and
  healthchecks_last_passed. Every other field and tag is always present. The tags are those
  of a URL, as \<open>getTags\<close> builds them, extended by the upstream name.

  The value of every entry is the decoded datum. Looking up an optional field gives the
  decoded pointer's target under the field's type, and nothing when the pointer is nil: the
  three queue fields read the members of the one optional queue object, and the peer tag id
  is the decimal rendering of the decoded id. Away from its optional keys each record is
  the table of the always present fields, each holding the decoded member it is mapped
  from; the peer field selected holds 0 when the decoded pointer is nil. A stream peer's
  tag id is not optional and renders the decoded id.
\<close>

theorem optional_fields_iff_present:
  "gatherZoneMetrics s tags acc =
     acc @ map (\<lambda>(name, z). AddFields ''nginx_plus_zone'' (zoneFields z) (tags(''zone'' \<mapsto> name)))
             (ServerZones s)
   \<and> gatherUpstreamMetrics s tags acc =
     acc @ concat (map (\<lambda>(name, u).
        AddFields ''nginx_plus_upstream'' (upstreamFields u) (tags(''upstream'' \<mapsto> name))
        # map (\<lambda>p. AddFields ''nginx_plus_upstream_peer'' (peerFields p)
                      (peerTags (tags(''upstream'' \<mapsto> name)) p)) (u_Peers u)) (Upstreams s))
   \<and> gatherStreamMetrics s tags acc =
     acc @ map (\<lambda>(name, z). AddFields ''nginx.stream.zone''
                     [''processing'' \<mapsto> VInt (stz_Processing z),
                      ''connections'' \<mapsto> VInt (stz_Connections z),
                      ''received'' \<mapsto> VInt64 (stz_Received z),
                      ''sent'' \<mapsto> VInt64 (stz_Sent z)] (tags(''zone'' \<mapsto> name)))
             (st_ServerZones (Stream s))
         @ concat (map (\<lambda>(name, u).
            AddFields ''nginx_plus_stream_upstream'' [''zombies'' \<mapsto> VInt (su_Zombies u)]
              (tags(''upstream'' \<mapsto> name))
            # map (\<lambda>p. AddFields ''nginx_plus_stream_upstream_peer'' (streamPeerFields p)
                          (streamPeerTags (tags(''upstream'' \<mapsto> name)) p)) (su_Peers u))
             (st_Upstreams (Stream s)))
   \<and> dom (zoneFields z) =
     {''processing'', ''requests'', ''responses_1xx'', ''responses_2xx'', ''responses_3xx'',
      ''responses_4xx'', ''responses_5xx'', ''responses_total'', ''received'', ''sent''}
     \<union> (if sz_Discarded z = None then {} else {''discarded''})
   \<and> dom (upstreamFields u) =
     {''keepalive'', ''zombies''}
     \<union> (if u_Queue u = None then {} else {''queue_size'', ''queue_max_size'', ''queue_overflows''})
   \<and> dom (peerFields p) =
     {''backup'', ''weight'', ''state'', ''active'', ''requests'', ''responses_1xx'',
      ''responses_2xx'', ''responses_3xx'', ''responses_4xx'', ''responses_5xx'',
      ''responses_total'', ''sent'', ''received'', ''fails'', ''unavail'',
      ''healthchecks_checks'', ''healthchecks_fails'', ''healthchecks_unhealthy'',
      ''downtime'', ''downstart'', ''selected''}
     \<union> (if p_MaxConns p = None then {} else {''max_conns''})
     \<union> (if p_HeaderTime p = None then {} else {''header_time''})
     \<union> (if p_ResponseTime p = None then {} else {''response_time''})
     \<union> (if LastPassed (p_HealthChecks p) = None then {} else {''healthchecks_last_passed''})
   \<and> dom (peerTags ((getTags lib addr)(''upstream'' \<mapsto> name)) p) =
     {''server'', ''port'', ''upstream'', ''upstream_address''}
     \<union> (if p_ID p = None then {} else {''id''})
   \<and> dom (streamPeerFields sp) =
     {''backup'', ''weight'', ''state'', ''active'', ''connections'', ''sent'', ''received'',
      ''fails'', ''unavail'', ''healthchecks_checks'', ''healthchecks_fails'',
      ''healthchecks_unhealthy'', ''downtime'', ''downstart'', ''selected''}
     \<union> (if sp_ConnectTime sp = None then {} else {''connect_time''})
     \<union> (if sp_FirstByteTime sp = None then {} else {''first_byte_time''})
     \<union> (if sp_ResponseTime sp = None then {} else {''response_time''})
     \<union> (if LastPassed (sp_HealthChecks sp) = None then {} else {''healthchecks_last_passed''})
   \<and> dom (streamPeerTags ((getTags lib addr)(''upstream'' \<mapsto> name)) sp) =
     {''server'', ''port'', ''upstream'', ''upstream_address'', ''id''}
   \<and> zoneFields z ''discarded'' = map_option VInt64 (sz_Discarded z)
   \<and> zoneFields z |` (- {''discarded''}) =
     [''processing'' \<mapsto> VInt (sz_Processing z),
      ''requests'' \<mapsto> VInt64 (sz_Requests z),
      ''responses_1xx'' \<mapsto> VInt64 (Responses1xx (sz_Responses z)),
      ''responses_2xx'' \<mapsto> VInt64 (Responses2xx (sz_Responses z)),
      ''responses_3xx'' \<mapsto> VInt64 (Responses3xx (sz_Responses z)),
      ''responses_4xx'' \<mapsto> VInt64 (Responses4xx (sz_Responses z)),
      ''responses_5xx'' \<mapsto> VInt64 (Responses5xx (sz_Responses z)),
      ''responses_total'' \<mapsto> VInt64 (rs_Total (sz_Responses z)),
      ''received'' \<mapsto> VInt64 (sz_Received z),
      ''sent'' \<mapsto> VInt64 (sz_Sent z)]
   \<and> upstreamFields u ''queue_size'' = map_option (\<lambda>q. VInt (q_Size q)) (u_Queue u)
   \<and> upstreamFields u ''queue_max_size'' = map_option (\<lambda>q. VInt (q_MaxSize q)) (u_Queue u)
   \<and> upstreamFields u ''queue_overflows'' = map_option (\<lambda>q. VInt64 (q_Overflows q)) (u_Queue u)
   \<and> upstreamFields u |` (- {''queue_size'', ''queue_max_size'', ''queue_overflows''}) =
     [''keepalive'' \<mapsto> VInt (u_Keepalive u), ''zombies'' \<mapsto> VInt (u_Zombies u)]
   \<and> peerFields p ''max_conns'' = map_option VInt (p_MaxConns p)
   \<and> peerFields p ''header_time'' = map_option VInt64 (p_HeaderTime p)
   \<and> peerFields p ''response_time'' = map_option VInt64 (p_ResponseTime p)
   \<and> peerFields p ''healthchecks_last_passed'' = map_option VBool (LastPassed (p_HealthChecks p))
   \<and> peerFields p |` (- {''max_conns'', ''header_time'', ''response_time'',
                       ''healthchecks_last_passed''}) =
     [''backup'' \<mapsto> VBool (p_Backup p),
      ''weight'' \<mapsto> VInt (p_Weight p),
      ''state'' \<mapsto> VString (p_State p),
      ''active'' \<mapsto> VInt (p_Active p),
      ''requests'' \<mapsto> VInt64 (p_Requests p),
      ''responses_1xx'' \<mapsto> VInt64 (Responses1xx (p_Responses p)),
      ''responses_2xx'' \<mapsto> VInt64 (Responses2xx (p_Responses p)),
      ''responses_3xx'' \<mapsto> VInt64 (Responses3xx (p_Responses p)),
      ''responses_4xx'' \<mapsto> VInt64 (Responses4xx (p_Responses p)),
      ''responses_5xx'' \<mapsto> VInt64 (Responses5xx (p_Responses p)),
      ''responses_total'' \<mapsto> VInt64 (rs_Total (p_Responses p)),
      ''sent'' \<mapsto> VInt64 (p_Sent p),
      ''received'' \<mapsto> VInt64 (p_Received p),
      ''fails'' \<mapsto> VInt64 (p_Fails p),
      ''unavail'' \<mapsto> VInt64 (p_Unavail p),
      ''healthchecks_checks'' \<mapsto> VInt64 (Checks (p_HealthChecks p)),
      ''healthchecks_fails'' \<mapsto> VInt64 (hc_Fails (p_HealthChecks p)),
      ''healthchecks_unhealthy'' \<mapsto> VInt64 (Unhealthy (p_HealthChecks p)),
      ''downtime'' \<mapsto> VInt64 (p_Downtime p),
      ''downstart'' \<mapsto> VInt64 (p_Downstart p),
      ''selected'' \<mapsto> VInt64 (case p_Selected p of None \<Rightarrow> 0 | Some v \<Rightarrow> v)]
   \<and> peerTags ((getTags lib addr)(''upstream'' \<mapsto> name)) p ''id'' = map_option Itoa (p_ID p)
   \<and> peerTags ((getTags lib addr)(''upstream'' \<mapsto> name)) p |` (- {''id''}) =
     (getTags lib addr)(''upstream'' \<mapsto> name, ''upstream_address'' \<mapsto> p_Server p)
   \<and> streamPeerFields sp ''connect_time'' = map_option VInt (sp_ConnectTime sp)
   \<and> streamPeerFields sp ''first_byte_time'' = map_option VInt (sp_FirstByteTime sp)
   \<and> streamPeerFields sp ''response_time'' = map_option VInt (sp_ResponseTime sp)
   \<and> streamPeerFields sp ''healthchecks_last_passed'' =
     map_option VBool (LastPassed (sp_HealthChecks sp))
   \<and> streamPeerFields sp |` (- {''connect_time'', ''first_byte_time'', ''response_time'',
                              ''healthchecks_last_passed''}) =
     [''backup'' \<mapsto> VBool (sp_Backup sp),
      ''weight'' \<mapsto> VInt (sp_Weight sp),
      ''state'' \<mapsto> VString (sp_State sp),
      ''active'' \<mapsto> VInt (sp_Active sp),
      ''connections'' \<mapsto> VInt64 (sp_Connections sp),
      ''sent'' \<mapsto> VInt64 (sp_Sent sp),
      ''received'' \<mapsto> VInt64 (sp_Received sp),
      ''fails'' \<mapsto> VInt64 (sp_Fails sp),
      ''unavail'' \<mapsto> VInt64 (sp_Unavail sp),
      ''healthchecks_checks'' \<mapsto> VInt64 (Checks (sp_HealthChecks sp)),
      ''healthchecks_fails'' \<mapsto> VInt64 (hc_Fails (sp_HealthChecks sp)),
      ''healthchecks_unhealthy'' \<mapsto> VInt64 (Unhealthy (sp_HealthChecks sp)),
      ''downtime'' \<mapsto> VInt64 (sp_Downtime sp),
      ''downstart'' \<mapsto> VInt64 (sp_Downstart sp),
      ''selected'' \<mapsto> VInt64 (sp_Selected sp)]
   \<and> streamPeerTags ((getTags lib addr)(''upstream'' \<mapsto> name)) sp =
     (getTags lib addr)(''upstream'' \<mapsto> name, ''upstream_address'' \<mapsto> sp_Server sp,
                        ''id'' \<mapsto> Itoa (sp_ID sp))"
proof -
  have 1: "gatherZoneMetrics s tags acc =
     acc @ map (\<lambda>(name, z). AddFields ''nginx_plus_zone'' (zoneFields z) (tags(''zone'' \<mapsto> name)))
             (ServerZones s)"
    by (simp add: gatherZoneMetrics_def gatherZones_eq)
  have 2: "gatherUpstreamMetrics s tags acc =
     acc @ concat (map (\<lambda>(name, u).
        AddFields ''nginx_plus_upstream'' (upstreamFields u) (tags(''upstream'' \<mapsto> name))
        # map (\<lambda>p. AddFields ''nginx_plus_upstream_peer'' (peerFields p)
                      (peerTags (tags(''upstream'' \<mapsto> name)) p)) (u_Peers u)) (Upstreams s))"
    by (simp add: gatherUpstreamMetrics_def gatherUpstreams_eq)
  have 3: "gatherStreamMetrics s tags acc =
     acc @ map (\<lambda>(name, z). AddFields ''nginx.stream.zone''
                     [''processing'' \<mapsto> VInt (stz_Processing z),
                      ''connections'' \<mapsto> VInt (stz_Connections z),
                      ''received'' \<mapsto> VInt64 (stz_Received z),
                      ''sent'' \<mapsto> VInt64 (stz_Sent z)] (tags(''zone'' \<mapsto> name)))
             (st_ServerZones (Stream s))
         @ concat (map (\<lambda>(name, u).
            AddFields ''nginx_plus_stream_upstream'' [''zombies'' \<mapsto> VInt (su_Zombies u)]
              (tags(''upstream'' \<mapsto> name))
            # map (\<lambda>p. AddFields ''nginx_plus_stream_upstream_peer'' (streamPeerFields p)
                          (streamPeerTags (tags(''upstream'' \<mapsto> name)) p)) (su_Peers u))
             (st_Upstreams (Stream s)))"
    by (simp add: gatherStreamMetrics_def gatherStreamZones_eq gatherStreamUpstreams_eq)
  have 7: "dom (peerTags ((getTags lib addr)(''upstream'' \<mapsto> name)) p) =
     {''server'', ''port'', ''upstream'', ''upstream_address''}
     \<union> (if p_ID p = None then {} else {''id''})"
    by (auto simp: dom_peerTags dom_getTags)
  have 9: "dom (streamPeerTags ((getTags lib addr)(''upstream'' \<mapsto> name)) sp) =
     {''server'', ''port'', ''upstream'', ''upstream_address'', ''id''}"
    by (auto simp: streamPeerTags_def dom_getTags)
  from 1 2 3 dom_zoneFields [of z] dom_upstreamFields [of u] dom_peerFields [of p] 7
    dom_streamPeerFields [of sp] 9
    zoneFields_discarded [of z] zoneFields_fixed [of z]
    upstreamFields_queue [of u] upstreamFields_fixed [of u]
    peerFields_optional [of p] peerFields_fixed [of p]
    peerTags_id [of lib addr name p] peerTags_fixed [of lib addr name p]
    streamPeerFields_optional [of sp] streamPeerFields_fixed [of sp]
    streamPeerTags_values [of lib addr name sp]
  show ?thesis by (intro conjI)
qed

text \<open>
  Claim C6 says that \<open>Gather\<close> visits every URL, waits for every goroutine, and returns nil
  whenever the client could be created, whatever happens to a single URL. With one
  configured URL whose server answers with a version 4 document, the goroutine panics in
  \<open>gather\<close>, nothing recovers from the panic, and under every schedule the program is
  terminated instead of \<open>Gather\<close> returning nil. Lemma \<open>ngx_Gather_outcome\<close> covers the other
  cases: an error is returned only for a failed client creation, and when no goroutine
  panics \<open>Gather\<close> returns nil under every schedule with the accumulator holding the calls of
  every URL.
\<close>

theorem Gather_crashes_on_version4_document:
  "\<forall>sched. snd (ngx_Gather example_library old_plugin sched []) = GCrashed []"
proof
  fix sched
  let ?n = "old_plugin\<lparr>client := Some example_client\<rparr>"
  have c: "createHTTPClient example_library old_plugin = (old_plugin, Inr example_client)"
    by (simp add: createHTTPClient_def old_plugin_def example_sel example_client_def Second_def)
  have cn: "client old_plugin = None" by (simp add: old_plugin_def)
  have g: "ngx_Gather example_library old_plugin sched [] =
      (?n, gatherAll example_library ?n sched [])"
    by (simp add: ngx_Gather_def c cn)
  have go: "goroutine example_library ?n old_url = ([], True)"
    by (simp add: goroutine_def example_gatherURL(2) [of ?n example_client])
  have u: "Urls ?n = [''https://old/status'']" by (simp add: old_plugin_def)
  have p: "list_ex (urlPanics example_library ?n) (Urls ?n)"
    by (simp add: u urlPanics_def example_sel go)
  have k: "concat (map (urlCalls example_library ?n) (Urls ?n)) = []"
    by (simp add: u urlCalls_def example_sel go)
  from gatherAll_result [of example_library ?n sched "[]"] p
  obtain a where a: "gatherAll example_library ?n sched [] = GCrashed a"
    and "mset a \<subseteq># mset [] + mset (concat (map (urlCalls example_library ?n) (Urls ?n)))"
    by blast
  then have "a = []" by (simp only: k mset.simps) simp
  with a have "gatherAll example_library ?n sched [] = GCrashed []" by simp
  with g show "snd (ngx_Gather example_library old_plugin sched []) = GCrashed []" by simp
qed

text \<open>
  Claim C7. \<open>Gather\<close> creates the client only when none is stored: with a stored client the
  plugin value is returned unchanged, whatever the libraries would answer, so every later
  call reuses it; without one the plugin value is the one \<open>createHTTPClient\<close> leaves, with
  the new client stored when the creation succeeded. \<open>createHTTPClient\<close> replaces a response
  timeout below one second by five seconds before it builds the client, and keeps any other
  timeout.
\<close>

theorem createHTTPClient_lazy:
  "(client n = Some c \<longrightarrow> fst (ngx_Gather lib n sched acc) = n)
   \<and> (client n = None \<longrightarrow>
        fst (ngx_Gather lib n sched acc) =
          (case createHTTPClient lib n of
             (n1, Inl err) \<Rightarrow> n1
           | (n1, Inr c) \<Rightarrow> n1\<lparr>client := Some c\<rparr>))
   \<and> (client (fst (ngx_Gather lib n sched acc)) = Some c \<longrightarrow>
        fst (ngx_Gather lib' (fst (ngx_Gather lib n sched acc)) sched' acc')
          = fst (ngx_Gather lib n sched acc))
   \<and> (sint (ResponseTimeout n) < sint Second \<longrightarrow>
        ResponseTimeout (fst (createHTTPClient lib n)) = Second * 5 \<and>
        (snd (createHTTPClient lib n) = Inr c \<longrightarrow> Timeout c = Second * 5))
   \<and> (\<not> sint (ResponseTimeout n) < sint Second \<longrightarrow>
        ResponseTimeout (fst (createHTTPClient lib n)) = ResponseTimeout n \<and>
        (snd (createHTTPClient lib n) = Inr c \<longrightarrow> Timeout c = ResponseTimeout n))
   \<and> sint (Second * 5) = 5000000000"
  by (auto simp: ngx_Gather_def createHTTPClient_def Let_def Second_def
        split: option.splits sum.splits prod.splits)

theorem createHTTPClient_lazy_witness:
  "client example_plugin = None
   \<and> sint (ResponseTimeout example_plugin) < sint Second
   \<and> createHTTPClient example_library example_plugin
       = (example_plugin\<lparr>ResponseTimeout := 5000000000\<rparr>, Inr example_client)
   \<and> fst (ngx_Gather example_library example_plugin [] [])
       = example_plugin\<lparr>ResponseTimeout := 5000000000, client := Some example_client\<rparr>
   \<and> fst (ngx_Gather example_library
            (example_plugin\<lparr>ResponseTimeout := 5000000000, client := Some example_client\<rparr>)
            [0, 1, 2] [])
       = example_plugin\<lparr>ResponseTimeout := 5000000000, client := Some example_client\<rparr>
   \<and> client old_plugin = None
   \<and> \<not> sint (ResponseTimeout old_plugin) < sint Second
   \<and> ResponseTimeout (fst (createHTTPClient example_library old_plugin)) = 5000000000"
proof -
  have a: "client example_plugin = None" by (simp add: example_plugin_def)
  have b: "sint (ResponseTimeout example_plugin) < sint Second"
    by (simp add: example_plugin_def Second_def)
  have c: "createHTTPClient example_library example_plugin
       = (example_plugin\<lparr>ResponseTimeout := 5000000000\<rparr>, Inr example_client)"
    using b by (simp add: createHTTPClient_def example_sel example_client_def Second_def)
  have d: "fst (ngx_Gather example_library example_plugin [] [])
       = example_plugin\<lparr>ResponseTimeout := 5000000000, client := Some example_client\<rparr>"
    using createHTTPClient_lazy [of example_plugin example_client example_library "[]" "[]"] a
    by (simp add: c)
  have e: "fst (ngx_Gather example_library
            (example_plugin\<lparr>ResponseTimeout := 5000000000, client := Some example_client\<rparr>)
            [0, 1, 2] [])
       = example_plugin\<lparr>ResponseTimeout := 5000000000, client := Some example_client\<rparr>"
    using createHTTPClient_lazy [of "example_plugin\<lparr>ResponseTimeout := 5000000000,
        client := Some example_client\<rparr>" example_client example_library "[0, 1, 2]" "[]"]
    by simp
  have f: "client old_plugin = None" by (simp add: old_plugin_def)
  have g: "\<not> sint (ResponseTimeout old_plugin) < sint Second"
    by (simp add: old_plugin_def Second_def)
  have h: "ResponseTimeout (fst (createHTTPClient example_library old_plugin)) = 5000000000"
    using createHTTPClient_lazy [of old_plugin example_client example_library "[]" "[]"] g
    by (simp add: old_plugin_def)
  from a b c d e f g h show ?thesis by (intro conjI)
qed

text \<open>
  Claim C8. Given a response, \<open>gatherURL\<close> returns an error and leaves the accumulator as it
  was when the status code is not 200 or when the content type, up to the first semicolon,
  is not \<^verbatim>\<open>application/json\<close>; \<open>gatherStatusURL\<close> returns an error and leaves the
  accumulator as it was when the body does not decode. Whenever either function has added
  anything to the accumulator, the body was decoded successfully.
\<close>

theorem gatherURL_errors:
  "(client n = Some c \<and> httpGet lib c (url_String addr) = Inr resp \<and> StatusCode resp \<noteq> 200 \<longrightarrow>
      gatherURL lib n addr acc =
        Returned (Some (ErrHTTPStatus (url_String addr) (Status resp))) acc)
   \<and> (client n = Some c \<and> httpGet lib c (url_String addr) = Inr resp \<and> StatusCode resp = 200 \<and>
        takeWhile (\<lambda>c. c \<noteq> CHR '';'') (ContentType resp) \<noteq> ''application/json'' \<longrightarrow>
      gatherURL lib n addr acc =
        Returned (Some (ErrContentType (url_String addr)
                          (takeWhile (\<lambda>c. c \<noteq> CHR '';'') (ContentType resp)))) acc)
   \<and> (jsonDecode lib r = None \<longrightarrow>
        gatherStatusURL lib r tags acc = Returned (Some ErrDecodeJSON) acc)
   \<and> (acc_of (gatherStatusURL lib r tags acc) \<noteq> acc \<longrightarrow> jsonDecode lib r \<noteq> None)
   \<and> (acc_of (gatherURL lib n addr acc) \<noteq> acc \<longrightarrow>
        (\<exists>c resp. client n = Some c \<and> httpGet lib c (url_String addr) = Inr resp \<and>
           StatusCode resp = 200 \<and>
           takeWhile (\<lambda>c. c \<noteq> CHR '';'') (ContentType resp) = ''application/json'' \<and>
           jsonDecode lib (Body resp) \<noteq> None))"
  by (auto simp: gatherURL_def gatherStatusURL_def Let_def split: option.splits sum.splits)

theorem gatherURL_errors_witness:
  "gatherURL example_library (example_plugin\<lparr>client := Some example_client\<rparr>) gone_url []
     = Returned (Some (ErrHTTPStatus ''http://gone/'' ''404 Not Found'')) []
   \<and> gatherURL example_library (example_plugin\<lparr>client := Some example_client\<rparr>) web_url []
     = Returned (Some (ErrContentType ''http://web/'' ''text/html'')) []
   \<and> gatherStatusURL example_library ''{'' example_tags [] = Returned (Some ErrDecodeJSON) []
   \<and> acc_of (gatherStatusURL example_library ''v6'' example_tags []) \<noteq> []
   \<and> jsonDecode example_library ''v6'' \<noteq> None
   \<and> acc_of (gatherURL example_library (example_plugin\<lparr>client := Some example_client\<rparr>)
               localhost_url []) \<noteq> []
   \<and> (\<exists>c resp. client (example_plugin\<lparr>client := Some example_client\<rparr>) = Some c \<and>
         httpGet example_library c (url_String localhost_url) = Inr resp \<and>
         StatusCode resp = 200 \<and>
         takeWhile (\<lambda>c. c \<noteq> CHR '';'') (ContentType resp) = ''application/json'' \<and>
         jsonDecode example_library (Body resp) \<noteq> None)"
proof -
  let ?n = "example_plugin\<lparr>client := Some example_client\<rparr>"
  have cl: "client ?n = Some example_client" by simp
  have us: "url_String gone_url = ''http://gone/''" "url_String web_url = ''http://web/''"
    by (simp_all add: gone_url_def web_url_def)
  have 1: "gatherURL example_library ?n gone_url []
     = Returned (Some (ErrHTTPStatus ''http://gone/'' ''404 Not Found'')) []"
    using gatherURL_errors [of ?n example_client example_library gone_url
        "\<lparr>StatusCode = 404, Status = ''404 Not Found'', ContentType = ''text/html'', Body = []\<rparr>" "[]"]
    by (simp add: us example_sel)
  have 2: "gatherURL example_library ?n web_url []
     = Returned (Some (ErrContentType ''http://web/'' ''text/html'')) []"
    using gatherURL_errors [of ?n example_client example_library web_url
        "\<lparr>StatusCode = 200, Status = ''200 OK'', ContentType = ''text/html'', Body = ''<html>''\<rparr>" "[]"]
    by (simp add: us example_sel)
  have 3: "gatherStatusURL example_library ''{'' example_tags [] = Returned (Some ErrDecodeJSON) []"
    using gatherURL_errors [of ?n example_client example_library gone_url _ "[]" "''{''" example_tags]
    by (simp add: example_sel)
  have 4: "acc_of (gatherStatusURL example_library ''v6'' example_tags []) \<noteq> []"
    by (simp add: gatherStatusURL_def example_sel example_gather_v6)
  have 5: "jsonDecode example_library ''v6'' \<noteq> None"
    using gatherURL_errors [of ?n example_client example_library gone_url _ "[]" "''v6''" example_tags] 4
    by blast
  have 6: "acc_of (gatherURL example_library ?n localhost_url []) \<noteq> []"
    by (simp add: example_gatherURL(1) [OF cl] example_gather_v6)
  have 7: "\<exists>c resp. client ?n = Some c \<and>
         httpGet example_library c (url_String localhost_url) = Inr resp \<and>
         StatusCode resp = 200 \<and>
         takeWhile (\<lambda>c. c \<noteq> CHR '';'') (ContentType resp) = ''application/json'' \<and>
         jsonDecode example_library (Body resp) \<noteq> None"
    using gatherURL_errors [of ?n example_client example_library localhost_url _ "[]" "''v6''" example_tags] 6
    by blast
  from 1 2 3 4 5 6 7 show ?thesis by (intro conjI)
qed

text \<open>
  Claim C10. \<open>getTags\<close> returns exactly the two tags server and port. When
  \<^verbatim>\<open>net.SplitHostPort\<close> splits the host of the URL, they are the two parts; otherwise the
  server is the whole host and the port is 80 for the scheme http, 443 for https and the
  empty string for any other scheme.
\<close>

theorem getTags_server_port:
  "dom (getTags lib addr) = {''server'', ''port''}
   \<and> (SplitHostPort lib (Host addr) = Some (host, port) \<longrightarrow>
        getTags lib addr = [''server'' \<mapsto> host, ''port'' \<mapsto> port])
   \<and> (SplitHostPort lib (Host addr) = None \<longrightarrow>
        getTags lib addr =
          [''server'' \<mapsto> Host addr,
           ''port'' \<mapsto> (if Scheme addr = ''http'' then ''80''
                        else if Scheme addr = ''https'' then ''443'' else [])])"
  by (simp add: dom_getTags) (simp add: getTags_def)

theorem getTags_server_port_witness:
  "SplitHostPort example_library (Host localhost_url) = Some (''localhost'', ''8080'')
   \<and> getTags example_library localhost_url = [''server'' \<mapsto> ''localhost'', ''port'' \<mapsto> ''8080'']
   \<and> SplitHostPort example_library (Host old_url) = None
   \<and> getTags example_library old_url = [''server'' \<mapsto> ''old'', ''port'' \<mapsto> ''443'']"
proof -
  have a: "SplitHostPort example_library (Host localhost_url) = Some (''localhost'', ''8080'')"
    by (simp add: example_library_def localhost_url_def)
  have b: "SplitHostPort example_library (Host old_url) = None"
    by (simp add: example_library_def old_url_def)
  from getTags_server_port [of example_library localhost_url "''localhost''" "''8080''"] a
  have 1: "getTags example_library localhost_url = [''server'' \<mapsto> ''localhost'', ''port'' \<mapsto> ''8080'']"
    by blast
  have s: "Host old_url = ''old''" "Scheme old_url = ''https''" by (simp_all add: old_url_def)
  from getTags_server_port [of example_library old_url] b
  have 2: "getTags example_library old_url = [''server'' \<mapsto> ''old'', ''port'' \<mapsto> ''443'']"
    by (simp add: s)
  from a 1 b 2 show ?thesis by (intro conjI)
qed


end
